theory Spec2Isabelle
  imports Complex_Main "HOL-Library.Multiset"
begin

section \<open>Numbers, exceptions and Python list access\<close>

text \<open>
  The plugin computes with Python numbers read from JSON and from the analyzer's trace.
  They are modelled as \<^typ>\<open>real\<close>: every comparison, sum, product and quotient of the
  source is the corresponding operation on reals, and the rounding of computed values is
  not modelled. The one comparison of the source that a rounded sum decides, the
  60-second test of the builder, takes the rounding as a parameter. With \<^verbatim>\<open>from __future__ import division\<close> the operator
  \<^verbatim>\<open>/\<close> is true division for integers and floats alike, and a zero divisor raises
  \<^verbatim>\<open>ZeroDivisionError\<close> in both cases.

  An exception of the source is a value of the type \<open>exn\<close> below; a function that
  may raise returns \<open>exn + 'a\<close>, with \<open>Inl\<close> for the exception.
\<close>

datatype exn = IndexError | KeyError | ZeroDivisionError | TypeError

text \<open>A progress point is the two-element list \<^verbatim>\<open>[filepos, remaining_time]\<close>.\<close>

type_synonym point = "real \<times> real"

text \<open>Python's \<^verbatim>\<open>l[i]\<close>: a negative index counts from the end, and an index outside the
  list raises \<^verbatim>\<open>IndexError\<close>.\<close>

definition getitem :: "'a list \<Rightarrow> int \<Rightarrow> exn + 'a" where
  "getitem l i =
     (if 0 \<le> i \<and> i < int (length l) then Inr (l ! nat i)
      else if i < 0 \<and> - int (length l) \<le> i then Inr (l ! nat (int (length l) + i))
      else Inl IndexError)"

text \<open>Python's \<^verbatim>\<open>d[k]\<close> on a dictionary whose entry for \<^verbatim>\<open>k\<close> is given as an option:
  a missing key raises \<^verbatim>\<open>KeyError\<close>.\<close>

definition getkey :: "'a option \<Rightarrow> exn + 'a" where
  "getkey v = (case v of None \<Rightarrow> Inl KeyError | Some x \<Rightarrow> Inr x)"

section \<open>The interpolator\<close>

text \<open>
  \<^verbatim>\<open>bisect.bisect_right(l, [point])\<close> compares the one-element list \<^verbatim>\<open>[point]\<close> with
  the entries \<^verbatim>\<open>[pos, val]\<close> of the map by Python's list order: the first elements
  decide when they differ, and when they are equal the shorter list is the smaller one.
  So \<^verbatim>\<open>[point] < [pos, val]\<close> holds when \<^verbatim>\<open>point == pos\<close>, and otherwise when
  \<^verbatim>\<open>point < pos\<close>.
\<close>

definition list_lt :: "real \<Rightarrow> point \<Rightarrow> bool" where
  "list_lt x p = (if x = fst p then True else x < fst p)"

text \<open>
  The loop of the standard library's \<^verbatim>\<open>bisect_right(a, x)\<close>:
  \<^verbatim>\<open>while lo < hi: mid = (lo+hi)//2; if x < a[mid]: hi = mid else: lo = mid+1\<close>,
  started at \<^verbatim>\<open>lo = 0\<close>, \<^verbatim>\<open>hi = len(a)\<close>, returning \<^verbatim>\<open>lo\<close>. Every index it
  reads satisfies \<open>mid < hi \<le> length a\<close>.
\<close>

function bisect_right_loop :: "point list \<Rightarrow> real \<Rightarrow> nat \<Rightarrow> nat \<Rightarrow> nat" where
  "bisect_right_loop a x lo hi =
     (if lo < hi
      then (let mid = (lo + hi) div 2
            in if list_lt x (a ! mid)
               then bisect_right_loop a x lo mid
               else bisect_right_loop a x (mid + 1) hi)
      else lo)"
  by pat_completeness auto
termination
  by (relation "measure (\<lambda>(a, x, lo, hi). hi - lo)") auto

declare bisect_right_loop.simps [simp del]

definition bisect_right :: "point list \<Rightarrow> real \<Rightarrow> nat" where
  "bisect_right a x = bisect_right_loop a x 0 (length a)"

text \<open>The list comprehension over \<^verbatim>\<open>zip(l[left_index], l[right_index])\<close>.\<close>

definition blend :: "point \<Rightarrow> point \<Rightarrow> real \<Rightarrow> point" where
  "blend lp rp ratio =
     (fst lp * (1 - ratio) + fst rp * ratio, snd lp * (1 - ratio) + snd rp * ratio)"

text \<open>
  \<^verbatim>\<open>_interpolate(l, point)\<close>. The result \<open>Inr None\<close> is the source's \<^verbatim>\<open>return None\<close>
  (out of range), \<open>Inr (Some p)\<close> a returned point and \<open>Inl e\<close> a raised exception.
\<close>

definition interpolate :: "point list \<Rightarrow> real \<Rightarrow> exn + point option" where
  "interpolate l x =
     (case getitem l 0 of Inl e \<Rightarrow> Inl e | Inr first \<Rightarrow>
     (case getitem l (- 1) of Inl e \<Rightarrow> Inl e | Inr lst \<Rightarrow>
      if x < fst first \<or> x > fst lst then Inr None
      else if x = fst first then Inr (Some first)
      else if x = fst lst then Inr (Some lst)
      else
        (let right_index = int (bisect_right l x);
             left_index = right_index - 1
         in (case getitem l left_index of Inl e \<Rightarrow> Inl e | Inr lp \<Rightarrow>
            (case getitem l right_index of Inl e \<Rightarrow> Inl e | Inr rp \<Rightarrow>
             if fst rp - fst lp = 0 then Inl ZeroDivisionError
             else Inr (Some (blend lp rp ((x - fst lp) / (fst rp - fst lp)))))))))"

text \<open>The invariant of a progress map that the docstring of \<^verbatim>\<open>_interpolate\<close> asks for
  (\<^verbatim>\<open>l must be a sorted list of lists\<close>): positions strictly increase.\<close>

definition increasing :: "point list \<Rightarrow> bool" where
  "increasing l = sorted_wrt (<) (map fst l)"

section \<open>The progress-map builder (\<^verbatim>\<open>analyzers/analyze_progress.py\<close>)\<close>

text \<open>
  A parsed \<^verbatim>\<open>Progress:\<close> line is the triple \<^verbatim>\<open>(filepos, filament, time)\<close>. The local
  variables \<^verbatim>\<open>first_filament\<close>, \<^verbatim>\<open>last_filament\<close> and \<^verbatim>\<open>max_filament\<close> hold
  \<^verbatim>\<open>None\<close> or a float; \<^verbatim>\<open>not v\<close> is true for \<^verbatim>\<open>None\<close> and for \<^verbatim>\<open>0.0\<close>.
  Blank lines and \<^verbatim>\<open>Analysis:\<close> lines do not touch these variables or the list
  \<^verbatim>\<open>progress\<close>, and the keys that \<^verbatim>\<open>main\<close> sets afterwards overwrite what such a
  line merged into the result, so the trace is taken as its list of samples.
\<close>

type_synonym sample = "real \<times> real \<times> real"

definition truthy :: "real option \<Rightarrow> bool" where
  "truthy v = (case v of None \<Rightarrow> False | Some x \<Rightarrow> x \<noteq> 0)"

text \<open>The variables of the first loop of \<^verbatim>\<open>main\<close>; \<open>raw_progress\<close> is the list
  \<^verbatim>\<open>progress\<close> of \<^verbatim>\<open>[filepos, time]\<close> entries.\<close>

record scan =
  first_filament :: "real option"
  last_filament :: "real option"
  max_filament :: "real option"
  raw_progress :: "point list"

definition scan_init :: scan where
  "scan_init = \<lparr>first_filament = None, last_filament = None, max_filament = None,
                 raw_progress = []\<rparr>"

text \<open>The body of the first loop for one \<^verbatim>\<open>Progress:\<close> line.\<close>

fun scan_line :: "scan \<Rightarrow> sample \<Rightarrow> scan" where
  "scan_line s (filepos, filament, time) =
     (let s1 = (if filament > 0 \<and> \<not> truthy (first_filament s)
                then s\<lparr>first_filament := Some filepos\<rparr> else s);
          s2 = (if \<not> truthy (max_filament s1)
                   \<or> (case max_filament s1 of None \<Rightarrow> False | Some m \<Rightarrow> filament > m)
                then s1\<lparr>last_filament := Some filepos, max_filament := Some filament\<rparr>
                else s1)
      in s2\<lparr>raw_progress := raw_progress s2 @ [(filepos, time)]\<rparr>)"

definition scan_trace :: "sample list \<Rightarrow> scan" where
  "scan_trace samples = fold (\<lambda>smp s. scan_line s smp) samples scan_init"

text \<open>
  The test \<^verbatim>\<open>most_recent_progress+60 < progress_entry[1]\<close>. The sum is a double: the
  exact sum rounded to the nearest double. Which samples are emitted depends on that
  rounding next to the boundary, so the rounding of the sum is the parameter \<open>rnd\<close> of
  the model (the time of a sample is a double already). \<^verbatim>\<open>most_recent_progress\<close> starts
  as \<^verbatim>\<open>float("-inf")\<close> (here \<open>None\<close>), for which the sum is \<^verbatim>\<open>-inf\<close> again and the
  test holds at every time.
\<close>

definition spaced :: "(real \<Rightarrow> real) \<Rightarrow> real option \<Rightarrow> real \<Rightarrow> bool" where
  "spaced rnd most_recent_progress t =
     (case most_recent_progress of None \<Rightarrow> True | Some m \<Rightarrow> rnd (m + 60) < t)"

text \<open>Python's \<^verbatim>\<open>progress_entry[0] == first_filament\<close>, false when the variable is
  \<^verbatim>\<open>None\<close>.\<close>

definition at_pos :: "real \<Rightarrow> real option \<Rightarrow> bool" where
  "at_pos pos v = (case v of None \<Rightarrow> False | Some q \<Rightarrow> pos = q)"

text \<open>The second loop: the entries it appends to \<^verbatim>\<open>result["progress"]\<close>, in order.\<close>

fun emit ::
  "(real \<Rightarrow> real) \<Rightarrow> real option \<Rightarrow> real option \<Rightarrow> real \<Rightarrow> real option \<Rightarrow> point list \<Rightarrow> point list"
  where
  "emit rnd ff lf total_time most_recent_progress [] = []"
| "emit rnd ff lf total_time most_recent_progress (progress_entry # rest) =
     (if spaced rnd most_recent_progress (snd progress_entry)
         \<or> at_pos (fst progress_entry) ff \<or> at_pos (fst progress_entry) lf
      then (fst progress_entry, total_time - snd progress_entry)
             # emit rnd ff lf total_time (Some (snd progress_entry)) rest
      else emit rnd ff lf total_time most_recent_progress rest)"

text \<open>The keys of the JSON object that \<^verbatim>\<open>main\<close> prints; \<open>None\<close> is JSON \<^verbatim>\<open>null\<close>.\<close>

record builder_output =
  out_firstFilament :: "real option"
  out_lastFilament :: "real option"
  out_progress :: "point list"
  out_estimatedPrintTime :: real

text \<open>\<^verbatim>\<open>main\<close> from the parsed trace on; \<^verbatim>\<open>progress[-1][1]\<close> raises on an empty trace.\<close>

definition main :: "(real \<Rightarrow> real) \<Rightarrow> sample list \<Rightarrow> exn + builder_output" where
  "main rnd samples =
     (let s = scan_trace samples
      in case getitem (raw_progress s) (- 1) of
           Inl e \<Rightarrow> Inl e
         | Inr lst \<Rightarrow>
             (let total_time = snd lst
              in Inr \<lparr>out_firstFilament = first_filament s,
                      out_lastFilament = last_filament s,
                      out_progress =
                        [(0, total_time)]
                        @ emit rnd (first_filament s) (last_filament s) total_time None
                            (raw_progress s)
                        @ [(1, 0)],
                      out_estimatedPrintTime = total_time\<rparr>))"

section \<open>Analysis results and history records\<close>

text \<open>
  The value stored under \<^verbatim>\<open>firstFilament\<close> or \<^verbatim>\<open>lastFilament\<close>: a number, or JSON
  \<^verbatim>\<open>null\<close> (Python's \<^verbatim>\<open>None\<close>), which the builder prints when no sample set the
  variable.
\<close>

datatype jnum = Null | Num real

text \<open>
  Ordering a number against \<^verbatim>\<open>None\<close> depends on the interpreter: Python 2 puts
  \<^verbatim>\<open>None\<close> below every number, Python 3 raises \<^verbatim>\<open>TypeError\<close>. The interpreter is a
  parameter of the functions that compare such a value; \<open>none_cmp py b\<close> is the outcome
  of a comparison whose Python 2 answer is \<open>b\<close>.
\<close>

datatype python = Python2 | Python3

definition none_cmp :: "python \<Rightarrow> bool \<Rightarrow> exn + bool" where
  "none_cmp py b = (case py of Python2 \<Rightarrow> Inr b | Python3 \<Rightarrow> Inl TypeError)"

text \<open>\<^verbatim>\<open>x < v\<close>, \<^verbatim>\<open>x <= v\<close>, \<^verbatim>\<open>x > v\<close> and \<^verbatim>\<open>x >= v\<close> for a number \<open>x\<close>.\<close>

definition lt_jnum :: "python \<Rightarrow> real \<Rightarrow> jnum \<Rightarrow> exn + bool" where
  "lt_jnum py x v = (case v of Num y \<Rightarrow> Inr (x < y) | Null \<Rightarrow> none_cmp py False)"

definition le_jnum :: "python \<Rightarrow> real \<Rightarrow> jnum \<Rightarrow> exn + bool" where
  "le_jnum py x v = (case v of Num y \<Rightarrow> Inr (x \<le> y) | Null \<Rightarrow> none_cmp py False)"

definition gt_jnum :: "python \<Rightarrow> real \<Rightarrow> jnum \<Rightarrow> exn + bool" where
  "gt_jnum py x v = (case v of Num y \<Rightarrow> Inr (x > y) | Null \<Rightarrow> none_cmp py True)"

definition ge_jnum :: "python \<Rightarrow> real \<Rightarrow> jnum \<Rightarrow> exn + bool" where
  "ge_jnum py x v = (case v of Num y \<Rightarrow> Inr (x \<ge> y) | Null \<Rightarrow> none_cmp py True)"

text \<open>
  \<^verbatim>\<open>_interpolate(l, v)\<close> for such a value: with \<^verbatim>\<open>None\<close> the first test
  \<^verbatim>\<open>point < l[0][0]\<close> is true in Python 2 (the function returns \<^verbatim>\<open>None\<close>) and raises in
  Python 3.
\<close>

definition interpolate_jnum :: "python \<Rightarrow> point list \<Rightarrow> jnum \<Rightarrow> exn + point option" where
  "interpolate_jnum py l v =
     (case v of
        Num x \<Rightarrow> interpolate l x
      | Null \<Rightarrow>
          (case getitem l 0 of
             Inl e \<Rightarrow> Inl e
           | Inr first \<Rightarrow>
               (case none_cmp py True of
                  Inl e \<Rightarrow> Inl e
                | Inr below \<Rightarrow> if below then Inr None else Inl TypeError)))"

text \<open>
  The dictionary \<^verbatim>\<open>metadata["analysis"]\<close> of a file. A field is \<open>None\<close> when the key is
  absent. The three \<open>md_\<close> fields are the keys \<^verbatim>\<open>analysisPrintTime\<close>,
  \<^verbatim>\<open>analysisFirstFilamentPrintTime\<close> and \<^verbatim>\<open>analysisLastFilamentPrintTime\<close>.
\<close>

record analysis =
  progress :: "point list option"
  firstFilament :: "jnum option"
  lastFilament :: "jnum option"
  estimatedPrintTime :: "real option"
  md_analysisPrintTime :: "real option"
  md_analysisFirstFilamentPrintTime :: "real option"
  md_analysisLastFilamentPrintTime :: "real option"

text \<open>
  One entry of \<^verbatim>\<open>print_history\<close>, also the dictionary \<^verbatim>\<open>_current_history\<close> of a running
  job. A field is \<open>None\<close> when the key is absent; \<open>payload_time\<close> is
  \<^verbatim>\<open>ph["payload"]["time"]\<close>.
\<close>

record history_record =
  firstFilamentPrintTime :: "real option"
  lastFilamentPrintTime :: "real option"
  payload_time :: "real option"
  timestamp :: "real option"
  analysisPrintTime :: "real option"
  analysisFirstFilamentPrintTime :: "real option"
  analysisLastFilamentPrintTime :: "real option"

section \<open>The compensation engine (\<^verbatim>\<open>compensate_analysis\<close>)\<close>

text \<open>Sequencing of statements that may raise.\<close>

definition andthen :: "exn + 'a \<Rightarrow> ('a \<Rightarrow> exn + 'b) \<Rightarrow> exn + 'b" where
  "andthen m f = (case m of Inl e \<Rightarrow> Inl e | Inr x \<Rightarrow> f x)"

text \<open>A list comprehension \<^verbatim>\<open>[f(ph) for ph in print_history]\<close> whose element expression
  may raise: the first exception ends it.\<close>

fun comprehension :: "('a \<Rightarrow> exn + 'b) \<Rightarrow> 'a list \<Rightarrow> exn + 'b list" where
  "comprehension f [] = Inr []"
| "comprehension f (x # xs) =
     (case f x of
        Inl e \<Rightarrow> Inl e
      | Inr y \<Rightarrow> (case comprehension f xs of Inl e \<Rightarrow> Inl e | Inr ys \<Rightarrow> Inr (y # ys)))"

text \<open>\<^verbatim>\<open>sum(xs) / len(xs)\<close>.\<close>

definition average :: "real list \<Rightarrow> exn + real" where
  "average xs =
     (if length xs = 0 then Inl ZeroDivisionError else Inr (sum_list xs / real (length xs)))"

text \<open>\<^verbatim>\<open>ph["firstFilamentPrintTime"]\<close>.\<close>

definition heat_up_time :: "history_record \<Rightarrow> exn + real" where
  "heat_up_time ph = getkey (firstFilamentPrintTime ph)"

text \<open>\<^verbatim>\<open>ph["payload"]["time"] - ph["lastFilamentPrintTime"]\<close>.\<close>

definition cool_down_time :: "history_record \<Rightarrow> exn + real" where
  "cool_down_time ph =
     andthen (getkey (payload_time ph)) (\<lambda>t.
     andthen (getkey (lastFilamentPrintTime ph)) (\<lambda>l. Inr (t - l)))"

text \<open>The two differences that the log line \<^verbatim>\<open>Time spent printing, actual vs predicted\<close>
  formats for each record (no division yet).\<close>

definition actual_vs_predicted :: "history_record \<Rightarrow> exn + real \<times> real" where
  "actual_vs_predicted ph =
     andthen (getkey (lastFilamentPrintTime ph)) (\<lambda>l.
     andthen (getkey (firstFilamentPrintTime ph)) (\<lambda>f.
     andthen (getkey (analysisLastFilamentPrintTime ph)) (\<lambda>al.
     andthen (getkey (analysisFirstFilamentPrintTime ph)) (\<lambda>af. Inr (l - f, al - af)))))"

text \<open>One element of \<^verbatim>\<open>print_time_factor\<close>.\<close>

definition print_time_factor :: "history_record \<Rightarrow> exn + real" where
  "print_time_factor ph =
     andthen (getkey (lastFilamentPrintTime ph)) (\<lambda>l.
     andthen (getkey (firstFilamentPrintTime ph)) (\<lambda>f.
     andthen (getkey (analysisLastFilamentPrintTime ph)) (\<lambda>al.
     andthen (getkey (analysisFirstFilamentPrintTime ph)) (\<lambda>af.
       if al - af = 0 then Inl ZeroDivisionError else Inr ((l - f) / (al - af))))))"

text \<open>
  The loop \<^verbatim>\<open>for p in analysis["progress"]\<close>: \<^verbatim>\<open>continue\<close> before the first filament,
  \<^verbatim>\<open>break\<close> from the last filament on, otherwise append the rewritten point. The result is
  \<^verbatim>\<open>new_progress\<close> after the loop.
\<close>

fun rewrite_loop ::
  "python \<Rightarrow> analysis \<Rightarrow> real \<Rightarrow> real \<Rightarrow> real \<Rightarrow> point list \<Rightarrow> exn + point list"
  where
  "rewrite_loop py a last_filament_remaining_time average_print_time_factor
       average_cool_down_time [] = Inr []"
| "rewrite_loop py a last_filament_remaining_time average_print_time_factor
       average_cool_down_time (p # ps) =
     (case firstFilament a of
        None \<Rightarrow> Inl KeyError
      | Some ff \<Rightarrow>
          (case lt_jnum py (fst p) ff of
             Inl e \<Rightarrow> Inl e
           | Inr before \<Rightarrow>
               if before
               then rewrite_loop py a last_filament_remaining_time
                      average_print_time_factor average_cool_down_time ps
               else
                 (case lastFilament a of
                    None \<Rightarrow> Inl KeyError
                  | Some lf \<Rightarrow>
                      (case ge_jnum py (fst p) lf of
                         Inl e \<Rightarrow> Inl e
                       | Inr after \<Rightarrow>
                           if after then Inr []
                           else
                             (case rewrite_loop py a last_filament_remaining_time
                                     average_print_time_factor average_cool_down_time ps of
                                Inl e \<Rightarrow> Inl e
                              | Inr rest \<Rightarrow>
                                  Inr ((fst p,
                                        (snd p - last_filament_remaining_time)
                                          * average_print_time_factor
                                        + average_cool_down_time) # rest))))))"

text \<open>
  The body of the \<^verbatim>\<open>try\<close> block, in three parts: the averages over the history
  (\<open>history_averages\<close>), the new map (\<open>new_progress_map\<close>) and the guards before
  them (\<open>compensate_try\<close>). The first argument of \<open>compensate_try\<close> is the setting \<^verbatim>\<open>print_history\<close>
  (\<open>None\<close> when \<^verbatim>\<open>has(["print_history"])\<close> is false); the result is the analysis
  dictionary when the block ends normally. Subscripting the \<^verbatim>\<open>None\<close> that
  \<^verbatim>\<open>_interpolate\<close> returns out of range raises \<^verbatim>\<open>TypeError\<close>. The dictionary is
  assigned to only in the last two statements.
\<close>

definition history_averages :: "history_record list \<Rightarrow> exn + real \<times> real \<times> real" where
  "history_averages print_history =
     andthen (comprehension heat_up_time print_history) (\<lambda>heat_up_times.
     andthen (average heat_up_times) (\<lambda>average_heat_up_time.
     andthen (comprehension cool_down_time print_history) (\<lambda>cool_down_times.
     andthen (average cool_down_times) (\<lambda>average_cool_down_time.
     andthen (comprehension actual_vs_predicted print_history) (\<lambda>logged.
     andthen (comprehension print_time_factor print_history) (\<lambda>factors.
     andthen (average factors) (\<lambda>average_print_time_factor.
       Inr (average_heat_up_time, average_cool_down_time, average_print_time_factor))))))))"

definition new_progress_map ::
  "python \<Rightarrow> analysis \<Rightarrow> real \<Rightarrow> real \<Rightarrow> real \<Rightarrow> exn + analysis" where
  "new_progress_map py a average_heat_up_time average_cool_down_time average_print_time_factor =
     andthen (getkey (progress a)) (\<lambda>prog.
     andthen (getkey (lastFilament a)) (\<lambda>lf.
     andthen (interpolate_jnum py prog lf) (\<lambda>interpolation.
     andthen (case interpolation of None \<Rightarrow> Inl TypeError | Some p \<Rightarrow> Inr (snd p))
       (\<lambda>last_filament_remaining_time.
     andthen (rewrite_loop py a last_filament_remaining_time average_print_time_factor
                average_cool_down_time prog) (\<lambda>kept.
     andthen (getitem kept 0) (\<lambda>first_kept.
       (let new_progress = (0, snd first_kept + average_heat_up_time) # kept @ [(1, 0)]
        in andthen (getitem new_progress 0) (\<lambda>p0.
             Inr (a\<lparr>progress := Some new_progress,
                    estimatedPrintTime := Some (snd p0)\<rparr>)))))))))"

definition compensate_try ::
  "python \<Rightarrow> history_record list option \<Rightarrow> analysis \<Rightarrow> exn + analysis" where
  "compensate_try py settings_history a =
     (case settings_history of
        None \<Rightarrow> Inr a
      | Some print_history \<Rightarrow>
          if print_history = [] then Inr a
          else
            andthen (history_averages print_history)
              (\<lambda>(average_heat_up_time, average_cool_down_time, average_print_time_factor).
                 new_progress_map py a average_heat_up_time average_cool_down_time
                   average_print_time_factor))"

text \<open>\<^verbatim>\<open>compensate_analysis\<close>: \<^verbatim>\<open>except Exception\<close> logs a warning and the method
  returns; the analysis dictionary is then as the \<^verbatim>\<open>try\<close> block left it.\<close>

definition compensate_analysis ::
  "python \<Rightarrow> history_record list option \<Rightarrow> analysis \<Rightarrow> analysis" where
  "compensate_analysis py settings_history a =
     (case compensate_try py settings_history a of Inl e \<Rightarrow> a | Inr a' \<Rightarrow> a')"

section \<open>The live estimator (\<^verbatim>\<open>GeniusEstimator\<close>)\<close>

text \<open>The mutable attributes of a \<^verbatim>\<open>GeniusEstimator\<close>; \<^verbatim>\<open>__init__\<close> sets the index to
  \<open>-1\<close>, the total to \<^verbatim>\<open>None\<close> and the flag to \<^verbatim>\<open>False\<close>.\<close>

record estimator =
  current_history :: history_record
  current_progress_index :: int
  current_total_printTime :: "real option"
  called_genius_yet :: bool

definition empty_history :: history_record where
  "empty_history =
     \<lparr>firstFilamentPrintTime = None, lastFilamentPrintTime = None, payload_time = None,
      timestamp = None, analysisPrintTime = None, analysisFirstFilamentPrintTime = None,
      analysisLastFilamentPrintTime = None\<rparr>"

definition init_estimator :: "history_record \<Rightarrow> estimator" where
  "init_estimator h =
     \<lparr>current_history = h, current_progress_index = - 1, current_total_printTime = None,
      called_genius_yet = False\<rparr>"

text \<open>
  What \<^verbatim>\<open>get_metadata\<close> returns: \<open>None\<close> for Python's \<^verbatim>\<open>None\<close>, \<open>Some None\<close> for
  a dictionary without the key \<^verbatim>\<open>analysis\<close> (the empty dictionary among them),
  \<open>Some (Some a)\<close> otherwise.
\<close>

type_synonym metadata = "analysis option option"

text \<open>The loop \<^verbatim>\<open>while new_progress_index + 1 < len(m) and progress >= m[new_progress_index+1][0]\<close>.\<close>

function advance :: "point list \<Rightarrow> real \<Rightarrow> int \<Rightarrow> exn + int" where
  "advance m prog i =
     (if i + 1 < int (length m)
      then (case getitem m (i + 1) of
              Inl e \<Rightarrow> Inl e
            | Inr p \<Rightarrow> if prog \<ge> fst p then advance m prog (i + 1) else Inr i)
      else Inr i)"
  by pat_completeness auto
termination
  by (relation "measure (\<lambda>(m, prog, i). nat (int (length m) - i))") auto

declare advance.simps [simp del]

text \<open>The two \<^verbatim>\<open>if\<close> statements that record calibration times. The first reads
  \<^verbatim>\<open>metadata["analysis"]["firstFilament"]\<close> and compares the progress with it before
  anything else; the second reads \<^verbatim>\<open>metadata["analysis"]["lastFilament"]\<close> only when the
  history already has a \<^verbatim>\<open>lastFilamentPrintTime\<close>.\<close>

definition capture_first ::
  "python \<Rightarrow> analysis \<Rightarrow> real \<Rightarrow> real \<Rightarrow> history_record \<Rightarrow> exn + history_record"
  where
  "capture_first py a prog printTime h =
     (case firstFilament a of
        None \<Rightarrow> Inl KeyError
      | Some ff \<Rightarrow>
          (case gt_jnum py prog ff of
             Inl e \<Rightarrow> Inl e
           | Inr beyond \<Rightarrow>
               Inr (if beyond \<and> firstFilamentPrintTime h = None
                    then h\<lparr>firstFilamentPrintTime := Some printTime\<rparr> else h)))"

definition capture_last ::
  "python \<Rightarrow> analysis \<Rightarrow> real \<Rightarrow> real \<Rightarrow> history_record \<Rightarrow> exn + history_record"
  where
  "capture_last py a prog printTime h =
     (if lastFilamentPrintTime h = None
      then Inr (h\<lparr>lastFilamentPrintTime := Some printTime\<rparr>)
      else (case lastFilament a of
              None \<Rightarrow> Inl KeyError
            | Some lf \<Rightarrow>
                (case le_jnum py prog lf of
                   Inl e \<Rightarrow> Inl e
                 | Inr not_past \<Rightarrow>
                     Inr (if not_past then h\<lparr>lastFilamentPrintTime := Some printTime\<rparr>
                          else h))))"

text \<open>The last two statements: \<^verbatim>\<open>self._current_total_printTime - printTime\<close> raises
  \<^verbatim>\<open>TypeError\<close> on \<^verbatim>\<open>None\<close>.\<close>

definition report :: "estimator \<Rightarrow> real \<Rightarrow> estimator \<times> (exn + (real \<times> string) option)" where
  "report self printTime =
     (case current_total_printTime self of
        None \<Rightarrow> (self, Inl TypeError)
      | Some total_printTime \<Rightarrow>
          (self, Inr (Some (total_printTime - printTime, ''genius''))))"

text \<open>The branch \<^verbatim>\<open>if new_progress_index != self._current_progress_index\<close>. Each
  assignment to the history is kept when a later statement raises or returns.\<close>

definition new_estimate ::
  "python \<Rightarrow> estimator \<Rightarrow> analysis \<Rightarrow> point list \<Rightarrow> int \<Rightarrow> real \<Rightarrow> real
     \<Rightarrow> estimator \<times> (exn + (real \<times> string) option)" where
  "new_estimate py self a filepos_to_progress new_progress_index prog printTime =
     (case capture_first py a prog printTime (current_history self) of
        Inl e \<Rightarrow> (self, Inl e)
      | Inr h1 \<Rightarrow>
          (let self1 = self\<lparr>current_history := h1\<rparr>
           in case capture_last py a prog printTime h1 of
                Inl e \<Rightarrow> (self1, Inl e)
              | Inr h2 \<Rightarrow>
                  (let self2 = self1\<lparr>current_history := h2\<rparr>
                   in case interpolate filepos_to_progress prog of
                        Inl e \<Rightarrow> (self2, Inl e)
                      | Inr None \<Rightarrow> (self2, Inr None)
                      | Inr (Some interpolation) \<Rightarrow>
                          report (self2\<lparr>current_total_printTime :=
                                           Some (snd interpolation + printTime),
                                         current_progress_index := new_progress_index\<rparr>)
                            printTime)))"

text \<open>\<^verbatim>\<open>_genius_estimate\<close>: the new state of the estimator, and the returned value or the
  raised exception.\<close>

definition genius_estimate ::
  "python \<Rightarrow> estimator \<Rightarrow> metadata \<Rightarrow> real \<Rightarrow> real
     \<Rightarrow> estimator \<times> (exn + (real \<times> string) option)"
  where
  "genius_estimate py self0 metadata progress0 printTime =
     (let prog = (if \<not> called_genius_yet self0 then 0 else progress0);
          self = self0\<lparr>called_genius_yet := True\<rparr>
      in case metadata of
           None \<Rightarrow> (self, Inr None)
         | Some None \<Rightarrow> (self, Inr None)
         | Some (Some a) \<Rightarrow>
             (case progress a of
                None \<Rightarrow> (self, Inr None)
              | Some filepos_to_progress \<Rightarrow>
                  (case advance filepos_to_progress prog (current_progress_index self) of
                     Inl e \<Rightarrow> (self, Inl e)
                   | Inr new_progress_index \<Rightarrow>
                       if new_progress_index < 0 then (self, Inr None)
                       else if new_progress_index \<noteq> current_progress_index self
                       then new_estimate py self a filepos_to_progress new_progress_index
                              prog printTime
                       else report self printTime)))"

text \<open>
  \<^verbatim>\<open>estimate\<close>. The result of the inherited estimator is the parameter
  \<open>default_result\<close>; a returned tuple is always true in Python, so \<^verbatim>\<open>if genius_result\<close>
  fails only for \<^verbatim>\<open>None\<close>. The statements after the \<^verbatim>\<open>try\<close> only format a log line.
\<close>

definition estimate ::
  "python \<Rightarrow> (real \<times> string) option \<Rightarrow> estimator \<Rightarrow> metadata \<Rightarrow> real \<Rightarrow> real
     \<Rightarrow> estimator \<times> (real \<times> string) option" where
  "estimate py default_result self metadata progress0 printTime =
     (case genius_estimate py self metadata progress0 printTime of
        (self', Inl e) \<Rightarrow> (self', default_result)
      | (self', Inr None) \<Rightarrow> (self', default_result)
      | (self', Inr (Some genius_result)) \<Rightarrow> (self', Some genius_result))"

text \<open>A job as a sequence of ticks \<open>(metadata, progress, printTime)\<close>.\<close>

fun run_ticks :: "python \<Rightarrow> estimator \<Rightarrow> (metadata \<times> real \<times> real) list \<Rightarrow> estimator" where
  "run_ticks py self [] = self"
| "run_ticks py self ((metadata, progress0, printTime) # ticks) =
     run_ticks py (fst (genius_estimate py self metadata progress0 printTime)) ticks"

section \<open>Recording a finished print (\<^verbatim>\<open>on_event\<close>)\<close>

text \<open>
  \<^verbatim>\<open>print_history.sort(key=lambda x: x["timestamp"], reverse=True)\<close>: the keys are
  computed first (a missing key raises), then the list is sorted stably by descending key,
  which is a stable ascending sort by the negated key.
\<close>

definition sort_history :: "history_record list \<Rightarrow> exn + history_record list" where
  "sort_history print_history =
     andthen (comprehension (\<lambda>x. getkey (timestamp x)) print_history) (\<lambda>keys.
       Inr (map snd (sort_key (\<lambda>kx. - fst kx) (zip keys print_history))))"

definition MAX_HISTORY_ITEMS :: nat where
  "MAX_HISTORY_ITEMS = 5"

text \<open>
  \<^verbatim>\<open>on_event\<close>. Arguments: the event name, the \<^verbatim>\<open>time\<close> entry of the payload, the value
  of \<^verbatim>\<open>time.time()\<close>, the setting \<^verbatim>\<open>print_history\<close> (\<open>None\<close> when it is not set), the
  metadata of the file and \<^verbatim>\<open>self._current_history\<close> (\<open>None\<close> for Python's \<^verbatim>\<open>None\<close>).
  The result is the setting after the call, and whether a record was appended.
\<close>

definition on_event ::
  "string \<Rightarrow> real option \<Rightarrow> real \<Rightarrow> history_record list option \<Rightarrow> metadata
     \<Rightarrow> history_record option \<Rightarrow> exn + (history_record list option \<times> bool)" where
  "on_event event payload now settings_history metadata cur =
     (if event = ''PrintDone''
      then
        (let print_history = (case settings_history of None \<Rightarrow> [] | Some h \<Rightarrow> h)
         in case metadata of
              None \<Rightarrow> Inl TypeError
            | Some None \<Rightarrow> Inr (settings_history, False)
            | Some (Some a) \<Rightarrow>
                if md_analysisPrintTime a = None then Inr (settings_history, False)
                else
                  (case cur of
                     None \<Rightarrow> Inl TypeError
                   | Some h \<Rightarrow>
                       andthen (getkey (md_analysisPrintTime a)) (\<lambda>apt.
                       andthen (getkey (md_analysisFirstFilamentPrintTime a)) (\<lambda>aft.
                       andthen (getkey (md_analysisLastFilamentPrintTime a)) (\<lambda>alt.
                       andthen (sort_history
                                  (print_history
                                   @ [h\<lparr>payload_time := payload, timestamp := Some now,
                                        analysisPrintTime := Some apt,
                                        analysisFirstFilamentPrintTime := Some aft,
                                        analysisLastFilamentPrintTime := Some alt\<rparr>]))
                         (\<lambda>sorted_history.
                            Inr (Some (take MAX_HISTORY_ITEMS sorted_history), True)))))))
      else Inr (settings_history, False))"

section \<open>Specification-side notions and sample data\<close>

text \<open>
  What the loop of \<^verbatim>\<open>bisect_right\<close> has established when it returns \<open>r\<close>: the last
  comparison to the left of \<open>r\<close> failed and the one at \<open>r\<close> succeeded (used in proofs
  only; no order on the list is assumed).
\<close>

definition probe_ok :: "point list \<Rightarrow> real \<Rightarrow> nat \<Rightarrow> nat \<Rightarrow> nat \<Rightarrow> bool" where
  "probe_ok a x lo hi r =
     (lo \<le> r \<and> r \<le> hi \<and> (r = lo \<or> \<not> list_lt x (a ! (r - 1))) \<and> (r = hi \<or> list_lt x (a ! r)))"

text \<open>
  The per-record quantities and the averages in the words of the specification
  (\<open>heatUp\<close>, \<open>coolDown\<close>, \<open>scale\<close> and their arithmetic means), for records whose
  keys are all present.
\<close>

definition heatUp :: "history_record \<Rightarrow> real" where
  "heatUp ph = the (firstFilamentPrintTime ph)"

definition coolDown :: "history_record \<Rightarrow> real" where
  "coolDown ph = the (payload_time ph) - the (lastFilamentPrintTime ph)"

definition scale_of :: "history_record \<Rightarrow> real" where
  "scale_of ph =
     (the (lastFilamentPrintTime ph) - the (firstFilamentPrintTime ph))
     / (the (analysisLastFilamentPrintTime ph) - the (analysisFirstFilamentPrintTime ph))"

definition mean :: "real list \<Rightarrow> real" where
  "mean xs = sum_list xs / real (length xs)"

text \<open>
  A well-formed history record: the five keys that compensation reads are present and the
  analysed mid-print duration is not zero.
\<close>

definition well_formed :: "history_record \<Rightarrow> bool" where
  "well_formed ph =
     (firstFilamentPrintTime ph \<noteq> None \<and> lastFilamentPrintTime ph \<noteq> None
      \<and> payload_time ph \<noteq> None
      \<and> analysisFirstFilamentPrintTime ph \<noteq> None \<and> analysisLastFilamentPrintTime ph \<noteq> None
      \<and> analysisLastFilamentPrintTime ph \<noteq> analysisFirstFilamentPrintTime ph)"

text \<open>
  The progress value a tick works with: \<open>0\<close> on the first call of a job, the reported
  value afterwards.
\<close>

definition effective_progress :: "estimator \<Rightarrow> real \<Rightarrow> real" where
  "effective_progress self progress0 = (if called_genius_yet self then progress0 else 0)"

text \<open>
  The analysis has a \<^verbatim>\<open>firstFilament\<close> entry that \<^verbatim>\<open>progress > firstFilament\<close> can be
  evaluated on: a number, or \<^verbatim>\<open>null\<close> under Python 2. A missing key raises
  \<^verbatim>\<open>KeyError\<close>, \<^verbatim>\<open>null\<close> under Python 3 raises \<^verbatim>\<open>TypeError\<close>.
\<close>

definition first_filament_comparable :: "python \<Rightarrow> analysis \<Rightarrow> bool" where
  "first_filament_comparable py a =
     (case firstFilament a of
        None \<Rightarrow> False
      | Some Null \<Rightarrow> py = Python2
      | Some (Num ff) \<Rightarrow> True)"

text \<open>
  The analysis has a numeric \<^verbatim>\<open>lastFilament\<close> and the progress is at most that
  position.
\<close>

definition not_past_last_filament :: "analysis \<Rightarrow> real \<Rightarrow> bool" where
  "not_past_last_filament a prog =
     (case lastFilament a of Some (Num lf) \<Rightarrow> prog \<le> lf | _ \<Rightarrow> False)"

text \<open>
  A tick on which the source assigns \<^verbatim>\<open>lastFilamentPrintTime\<close>, in the words of the
  amended claim C4: the metadata has an analysis with a progress map, the cursor search
  succeeds and reaches a new index, the comparison with \<^verbatim>\<open>firstFilament\<close> does not
  raise, and either no \<^verbatim>\<open>lastFilamentPrintTime\<close> is recorded yet or the progress is at
  most a numeric \<^verbatim>\<open>lastFilament\<close>.
\<close>

definition qualifying :: "python \<Rightarrow> estimator \<Rightarrow> metadata \<times> real \<times> real \<Rightarrow> bool" where
  "qualifying py self tick =
     (case tick of (metadata, progress0, printTime) \<Rightarrow>
        (case metadata of
           Some (Some a) \<Rightarrow>
             (case progress a of
                Some m \<Rightarrow>
                  (case advance m (effective_progress self progress0)
                          (current_progress_index self) of
                     Inr n \<Rightarrow>
                       0 \<le> n \<and> n \<noteq> current_progress_index self
                       \<and> first_filament_comparable py a
                       \<and> (lastFilamentPrintTime (current_history self) = None
                            \<or> not_past_last_filament a (effective_progress self progress0))
                   | Inl e \<Rightarrow> False)
              | None \<Rightarrow> False)
         | _ \<Rightarrow> False))"

text \<open>
  Sample data: a progress map of four points, an analysis over it, and ticks of a job.
\<close>

definition demo_map :: "point list" where
  "demo_map = [(0, 100), (1/4, 80), (3/4, 20), (1, 0)]"

definition demo_analysis :: analysis where
  "demo_analysis =
     \<lparr>progress = Some demo_map, firstFilament = Some (Num (1/4)),
      lastFilament = Some (Num (3/4)),
      estimatedPrintTime = Some 100, md_analysisPrintTime = Some 100,
      md_analysisFirstFilamentPrintTime = Some 20, md_analysisLastFilamentPrintTime = Some 80\<rparr>"

text \<open>
  Analyses on which the estimator raises: one without the key \<^verbatim>\<open>firstFilament\<close>, one
  whose \<^verbatim>\<open>firstFilament\<close> is \<^verbatim>\<open>null\<close>.
\<close>

definition no_first_filament :: analysis where
  "no_first_filament = demo_analysis\<lparr>firstFilament := None\<rparr>"

definition null_first_filament :: analysis where
  "null_first_filament = demo_analysis\<lparr>firstFilament := Some Null\<rparr>"

definition demo_ticks :: "(metadata \<times> real \<times> real) list" where
  "demo_ticks = [(Some (Some demo_analysis), 0, 0)]"




definition zero_start_trace :: "sample list" where
  "zero_start_trace = [(0, 1, 1), (1/2, 2, 2)]"

definition no_filament_trace :: "sample list" where
  "no_filament_trace = [(1/10, 0, 1), (1/5, 0, 2)]"

text \<open>
  Sample history records: a well-formed one, one whose analysed mid-print duration is zero,
  and an analysis whose first and last filament positions coincide.
\<close>

definition demo_record :: history_record where
  "demo_record =
     \<lparr>firstFilamentPrintTime = Some 10, lastFilamentPrintTime = Some 70,
      payload_time = Some 80, timestamp = Some 1, analysisPrintTime = Some 100,
      analysisFirstFilamentPrintTime = Some 20, analysisLastFilamentPrintTime = Some 80\<rparr>"

definition degenerate_record :: history_record where
  "degenerate_record = demo_record\<lparr>analysisLastFilamentPrintTime := Some 20\<rparr>"

definition flat_analysis :: analysis where
  "flat_analysis = demo_analysis\<lparr>firstFilament := Some (Num (3/4))\<rparr>"

text \<open>
  A history of five records and the record of a job in progress, for \<open>on_event\<close>.
\<close>

definition demo_history :: "history_record list" where
  "demo_history =
     [demo_record\<lparr>timestamp := Some 6\<rparr>, demo_record\<lparr>timestamp := Some 5\<rparr>,
      demo_record\<lparr>timestamp := Some 4\<rparr>, demo_record\<lparr>timestamp := Some 3\<rparr>,
      demo_record\<lparr>timestamp := Some 2\<rparr>]"

definition demo_current :: history_record where
  "demo_current =
     empty_history\<lparr>firstFilamentPrintTime := Some 10, lastFilamentPrintTime := Some 70\<rparr>"

definition demo_persisted :: "history_record list" where
  "demo_persisted =
     [demo_record\<lparr>timestamp := Some 7\<rparr>, demo_record\<lparr>timestamp := Some 6\<rparr>,
      demo_record\<lparr>timestamp := Some 5\<rparr>, demo_record\<lparr>timestamp := Some 4\<rparr>,
      demo_record\<lparr>timestamp := Some 3\<rparr>]"

section \<open>Verified properties\<close>

subsection \<open>Interpolation\<close>

lemma getitem_0: "l \<noteq> [] \<Longrightarrow> getitem l 0 = Inr (hd l)"
  by (cases l) (simp_all add: getitem_def)

lemma getitem_last: "l \<noteq> [] \<Longrightarrow> getitem l (- 1) = Inr (last l)"
proof -
  assume ne: "l \<noteq> []"
  then have pos: "0 < length l" by simp
  have n: "nat (int (length l) + - 1) = length l - 1" by linarith
  have c: "(- 1 :: int) < 0 \<and> - int (length l) \<le> - 1" using pos by linarith
  have "getitem l (- 1) = Inr (l ! nat (int (length l) + - 1))"
    unfolding getitem_def using c by (simp only: if_True) simp
  also have "l ! nat (int (length l) + - 1) = last l"
    unfolding n using ne by (simp add: last_conv_nth)
  finally show ?thesis .
qed

lemma getitem_nat: "n < length l \<Longrightarrow> getitem l (int n) = Inr (l ! n)"
  by (simp add: getitem_def)

lemma bisect_right_loop_probe:
  "lo \<le> hi \<Longrightarrow> probe_ok a x lo hi (bisect_right_loop a x lo hi)"
proof (induction a x lo hi rule: bisect_right_loop.induct)
  case (1 a x lo hi)
  show ?case
  proof (cases "lo < hi")
    case False
    then have "bisect_right_loop a x lo hi = lo"
      by (subst bisect_right_loop.simps) simp
    with "1.prems" False show ?thesis by (simp add: probe_ok_def)
  next
    case lt: True
    define mid where "mid = (lo + hi) div 2"
    have mid: "lo \<le> mid" "mid < hi" using lt by (simp_all add: mid_def)
    show ?thesis
    proof (cases "list_lt x (a ! mid)")
      case True
      have eq: "bisect_right_loop a x lo hi = bisect_right_loop a x lo mid"
        using lt True by (subst bisect_right_loop.simps) (simp add: mid_def Let_def)
      have "probe_ok a x lo mid (bisect_right_loop a x lo mid)"
        using "1.IH"(1) [of mid] lt True mid by (simp add: mid_def)
      then show ?thesis unfolding eq using mid True by (auto simp: probe_ok_def)
    next
      case False
      have eq: "bisect_right_loop a x lo hi = bisect_right_loop a x (mid + 1) hi"
        using lt False by (subst bisect_right_loop.simps) (simp add: mid_def Let_def)
      have "probe_ok a x (mid + 1) hi (bisect_right_loop a x (mid + 1) hi)"
        using "1.IH"(2) [of mid] lt False mid by (simp add: mid_def)
      then show ?thesis unfolding eq using mid False by (auto simp: probe_ok_def)
    qed
  qed
qed

lemma bisect_right_bracket:
  assumes "l \<noteq> []" "fst (hd l) < x" "x < fst (last l)"
  shows "0 < bisect_right l x \<and> bisect_right l x < length l
         \<and> fst (l ! (bisect_right l x - 1)) < x \<and> x \<le> fst (l ! bisect_right l x)"
proof -
  define r where "r = bisect_right l x"
  have p: "probe_ok l x 0 (length l) r"
    unfolding r_def bisect_right_def by (rule bisect_right_loop_probe) simp
  have r0: "r \<noteq> 0"
  proof
    assume "r = 0"
    with p assms(1) have "list_lt x (l ! 0)" by (auto simp: probe_ok_def)
    with assms(1,2) show False by (simp add: list_lt_def hd_conv_nth split: if_splits)
  qed
  have rn: "r \<noteq> length l"
  proof
    assume "r = length l"
    with p r0 have "\<not> list_lt x (l ! (length l - 1))" by (auto simp: probe_ok_def)
    with assms(1,3) show False by (simp add: list_lt_def last_conv_nth split: if_splits)
  qed
  from p r0 rn have "r < length l" "\<not> list_lt x (l ! (r - 1))" "list_lt x (l ! r)"
    by (auto simp: probe_ok_def)
  with r0 show ?thesis unfolding r_def [symmetric]
    by (auto simp: list_lt_def split: if_splits)
qed

lemma interpolate_inside:
  assumes "l \<noteq> []" "fst (hd l) < x" "x < fst (last l)"
  shows "interpolate l x =
           Inr (Some (blend (l ! (bisect_right l x - 1)) (l ! bisect_right l x)
                  ((x - fst (l ! (bisect_right l x - 1)))
                   / (fst (l ! bisect_right l x) - fst (l ! (bisect_right l x - 1))))))"
proof -
  define r where "r = bisect_right l x"
  from bisect_right_bracket [OF assms]
  have r: "0 < r" "r < length l" "fst (l ! (r - 1)) < x" "x \<le> fst (l ! r)"
    by (simp_all add: r_def)
  have g1: "getitem l (int r - 1) = Inr (l ! (r - 1))"
    using getitem_nat [of "r - 1" l] r by (simp add: of_nat_diff)
  have g2: "getitem l (int r) = Inr (l ! r)" using r by (simp add: getitem_nat)
  show ?thesis
    using assms r g1 g2 unfolding r_def [symmetric]
    by (simp add: interpolate_def getitem_0 getitem_last r_def [symmetric] Let_def)
qed

lemma interpolate_cases:
  assumes "l \<noteq> []"
  shows "interpolate l x =
     (if x < fst (hd l) \<or> fst (last l) < x then Inr None
      else if x = fst (hd l) then Inr (Some (hd l))
      else if x = fst (last l) then Inr (Some (last l))
      else Inr (Some (blend (l ! (bisect_right l x - 1)) (l ! bisect_right l x)
                  ((x - fst (l ! (bisect_right l x - 1)))
                   / (fst (l ! bisect_right l x) - fst (l ! (bisect_right l x - 1)))))))"
proof (cases "fst (hd l) < x \<and> x < fst (last l)")
  case True
  then show ?thesis using interpolate_inside [OF assms, of x] by simp
next
  case False
  then show ?thesis using assms
    by (auto simp: interpolate_def getitem_0 getitem_last)
qed

lemma increasing_nth_less:
  "increasing l \<Longrightarrow> i < j \<Longrightarrow> j < length l \<Longrightarrow> fst (l ! i) < fst (l ! j)"
  using sorted_wrt_nth_less [of "(<)" "map fst l" i j] by (simp add: increasing_def)

lemma increasing_nth_less_iff:
  assumes "increasing l" "i < length l" "j < length l"
  shows "fst (l ! i) < fst (l ! j) \<longleftrightarrow> i < j"
proof
  assume lt: "fst (l ! i) < fst (l ! j)"
  show "i < j"
  proof (rule ccontr)
    assume "\<not> i < j"
    then have "j = i \<or> j < i" by auto
    then show False
    proof
      assume "j = i" with lt show False by simp
    next
      assume "j < i"
      from increasing_nth_less [OF assms(1) this assms(2)] lt show False by simp
    qed
  qed
next
  assume "i < j" then show "fst (l ! i) < fst (l ! j)"
    using increasing_nth_less assms by blast
qed

lemma increasing_bracket_unique:
  assumes inc: "increasing l" and r: "0 < r" "r < length l"
    and br: "fst (l ! (r - 1)) < x" "x \<le> fst (l ! r)"
    and i: "i + 1 < length l" "fst (l ! i) < x" "x \<le> fst (l ! (i + 1))"
  shows "i = r - 1"
proof -
  have "fst (l ! i) < fst (l ! r)" using i(2) br(2) by simp
  then have a: "i < r" using increasing_nth_less_iff [OF inc, of i r] i(1) r by simp
  have "fst (l ! (r - 1)) < fst (l ! (i + 1))" using br(1) i(3) by simp
  then have "r - 1 < i + 1"
    using increasing_nth_less_iff [OF inc, of "r - 1" "i + 1"] i(1) r by simp
  with a show ?thesis by simp
qed

lemma blend_one: "blend lp rp 1 = rp"
  by (simp add: blend_def)

lemma lerp_position:
  fixes a b x :: real
  assumes "b \<noteq> a"
  shows "a * (1 - (x - a) / (b - a)) + b * ((x - a) / (b - a)) = x"
proof -
  define r where "r = (x - a) / (b - a)"
  have "a * (1 - r) + b * r = a + (b - a) * r"
    by (simp add: algebra_simps)
  also have "(b - a) * r = x - a" using assms by (simp add: r_def)
  finally show ?thesis by (simp add: r_def)
qed

text \<open>
  Claim C7. For a map with strictly increasing positions and at least two points, and a
  query \<open>x\<close> strictly between the first and the last position: if \<open>x\<close> is the position of
  a knot, \<open>interpolate\<close> returns exactly that knot; otherwise exactly one adjacent pair
  \<open>(left, right)\<close> brackets \<open>x\<close>, and with \<open>ratio = (x - left.position) /
  (right.position - left.position)\<close> the result is the point with the components
  \<open>left * (1 - ratio) + right * ratio\<close>, whose position is \<open>x\<close> itself.
\<close>

theorem interpolate_interior:
  assumes inc: "increasing l" and len: "2 \<le> length l"
    and lo: "fst (hd l) < x" and hi: "x < fst (last l)"
  shows "(\<forall>k < length l. fst (l ! k) = x \<longrightarrow> interpolate l x = Inr (Some (l ! k)))
       \<and> (x \<notin> fst ` set l \<longrightarrow>
            (\<exists>!i. i + 1 < length l \<and> fst (l ! i) < x \<and> x < fst (l ! (i + 1)))
          \<and> (\<forall>i. i + 1 < length l \<and> fst (l ! i) < x \<and> x < fst (l ! (i + 1)) \<longrightarrow>
                 (let ratio = (x - fst (l ! i)) / (fst (l ! (i + 1)) - fst (l ! i))
                  in interpolate l x =
                       Inr (Some (fst (l ! i) * (1 - ratio) + fst (l ! (i + 1)) * ratio,
                                  snd (l ! i) * (1 - ratio) + snd (l ! (i + 1)) * ratio))
                     \<and> fst (l ! i) * (1 - ratio) + fst (l ! (i + 1)) * ratio = x)))"
proof -
  from len have ne: "l \<noteq> []" by auto
  define r where "r = bisect_right l x"
  from bisect_right_bracket [OF ne lo hi]
  have r: "0 < r" "r < length l" "fst (l ! (r - 1)) < x" "x \<le> fst (l ! r)"
    by (simp_all add: r_def)
  have res: "interpolate l x =
      Inr (Some (blend (l ! (r - 1)) (l ! r)
                   ((x - fst (l ! (r - 1))) / (fst (l ! r) - fst (l ! (r - 1))))))"
    unfolding r_def by (rule interpolate_inside [OF ne lo hi])
  have knot: "interpolate l x = Inr (Some (l ! k))" if k: "k < length l" "fst (l ! k) = x" for k
  proof -
    have "fst (l ! (r - 1)) < fst (l ! k)" using r(3) k(2) by simp
    then have "r - 1 < k" using increasing_nth_less_iff [OF inc, of "r - 1" k] r k by simp
    moreover have "\<not> fst (l ! r) < fst (l ! k)" using r(4) k(2) by simp
    then have "\<not> r < k" using increasing_nth_less_iff [OF inc, of r k] r k by simp
    ultimately have "k = r" by simp
    moreover have "fst (l ! r) - fst (l ! (r - 1)) \<noteq> 0" using r(3,4) by simp
    ultimately show ?thesis using res k(2) by (simp add: blend_one)
  qed
  have between: "(\<exists>!i. i + 1 < length l \<and> fst (l ! i) < x \<and> x < fst (l ! (i + 1)))
          \<and> (\<forall>i. i + 1 < length l \<and> fst (l ! i) < x \<and> x < fst (l ! (i + 1)) \<longrightarrow>
                 (let ratio = (x - fst (l ! i)) / (fst (l ! (i + 1)) - fst (l ! i))
                  in interpolate l x =
                       Inr (Some (fst (l ! i) * (1 - ratio) + fst (l ! (i + 1)) * ratio,
                                  snd (l ! i) * (1 - ratio) + snd (l ! (i + 1)) * ratio))
                     \<and> fst (l ! i) * (1 - ratio) + fst (l ! (i + 1)) * ratio = x))"
    if nk: "x \<notin> fst ` set l"
  proof -
    have "fst (l ! r) \<noteq> x" using nk r(2) by (metis image_eqI nth_mem)
    with r(4) have strict: "x < fst (l ! r)" by simp
    have uniq: "i = r - 1"
      if "i + 1 < length l \<and> fst (l ! i) < x \<and> x < fst (l ! (i + 1))" for i
      using increasing_bracket_unique [OF inc r, of i] that by simp
    have ex: "(r - 1) + 1 < length l \<and> fst (l ! (r - 1)) < x \<and> x < fst (l ! ((r - 1) + 1))"
      using r strict by simp
    have "\<exists>!i. i + 1 < length l \<and> fst (l ! i) < x \<and> x < fst (l ! (i + 1))"
      using ex uniq by (rule ex1I)
    moreover have "(let ratio = (x - fst (l ! i)) / (fst (l ! (i + 1)) - fst (l ! i))
                  in interpolate l x =
                       Inr (Some (fst (l ! i) * (1 - ratio) + fst (l ! (i + 1)) * ratio,
                                  snd (l ! i) * (1 - ratio) + snd (l ! (i + 1)) * ratio))
                     \<and> fst (l ! i) * (1 - ratio) + fst (l ! (i + 1)) * ratio = x)"
      if i: "i + 1 < length l \<and> fst (l ! i) < x \<and> x < fst (l ! (i + 1))" for i
    proof -
      have ir: "i = r - 1" by (rule uniq [OF i])
      have d: "fst (l ! (i + 1)) - fst (l ! i) \<noteq> 0" using i by simp
      have "fst (l ! i) * (1 - (x - fst (l ! i)) / (fst (l ! (i + 1)) - fst (l ! i)))
              + fst (l ! (i + 1)) * ((x - fst (l ! i)) / (fst (l ! (i + 1)) - fst (l ! i))) = x"
        using d by (intro lerp_position) simp
      moreover have "interpolate l x =
          Inr (Some (fst (l ! i) * (1 - (x - fst (l ! i)) / (fst (l ! (i + 1)) - fst (l ! i)))
                       + fst (l ! (i + 1))
                         * ((x - fst (l ! i)) / (fst (l ! (i + 1)) - fst (l ! i))),
                     snd (l ! i) * (1 - (x - fst (l ! i)) / (fst (l ! (i + 1)) - fst (l ! i)))
                       + snd (l ! (i + 1))
                         * ((x - fst (l ! i)) / (fst (l ! (i + 1)) - fst (l ! i)))))"
        using res r(1) unfolding ir by (simp add: blend_def)
      ultimately show ?thesis unfolding Let_def by (rule conjI [rotated])
    qed
    ultimately show ?thesis by blast
  qed
  from knot between show ?thesis by blast
qed

text \<open>
  The range test on any non-empty list, sorted or not: \<open>interpolate\<close> never raises, and
  it returns \<^verbatim>\<open>None\<close> exactly outside the positions of the two end points.
\<close>

lemma interpolate_range_any:
  assumes "l \<noteq> []"
  shows "((interpolate l x = Inr None) = (x < fst (hd l) \<or> fst (last l) < x))
       \<and> (\<exists>r. interpolate l x = Inr r)
       \<and> (fst (hd l) \<le> fst (last l) \<longrightarrow> interpolate l (fst (hd l)) = Inr (Some (hd l)))
       \<and> (fst (hd l) < fst (last l) \<longrightarrow> interpolate l (fst (last l)) = Inr (Some (last l)))"
  by (simp add: interpolate_cases [OF assms])

text \<open>
  Claim C8. For every map with strictly increasing positions and at least two points,
  \<open>interpolate\<close> returns \<^verbatim>\<open>None\<close> exactly when the query is strictly below the first
  position or strictly above the last one; a query at the first position returns the first
  point, and a query at the last position returns the last point.
\<close>

theorem interpolate_range:
  assumes inc: "increasing l" and len: "2 \<le> length l"
  shows "((interpolate l x = Inr None) = (x < fst (hd l) \<or> fst (last l) < x))
       \<and> (x = fst (hd l) \<longrightarrow> interpolate l x = Inr (Some (hd l)))
       \<and> (x = fst (last l) \<longrightarrow> interpolate l x = Inr (Some (last l)))"
proof -
  from len have ne: "l \<noteq> []" by auto
  have "fst (l ! 0) < fst (l ! (length l - 1))"
    using increasing_nth_less [OF inc, of 0 "length l - 1"] len by simp
  then have lt: "fst (hd l) < fst (last l)"
    using ne by (simp add: hd_conv_nth last_conv_nth)
  from interpolate_range_any [OF ne, of x] interpolate_range_any [OF ne, of "fst (hd l)"]
    interpolate_range_any [OF ne, of "fst (last l)"] lt
  show ?thesis by auto
qed

theorem interpolate_interior_witness:
  "increasing demo_map \<and> 2 \<le> length demo_map
   \<and> fst (hd demo_map) < 1/4 \<and> 1/4 < fst (last demo_map)
   \<and> fst (hd demo_map) < 1/2 \<and> 1/2 < fst (last demo_map)
   \<and> interpolate demo_map (1/4) = Inr (Some (1/4, 80))
   \<and> interpolate demo_map (1/2) = Inr (Some (1/2, 50))"
proof -
  have h: "increasing demo_map" "2 \<le> length demo_map"
    by (simp_all add: demo_map_def increasing_def)
  have q: "fst (hd demo_map) < 1/4" "1/4 < fst (last demo_map)"
    by (simp_all add: demo_map_def)
  have m: "fst (hd demo_map) < 1/2" "1/2 < fst (last demo_map)"
    by (simp_all add: demo_map_def)
  have k: "1 < length demo_map \<and> fst (demo_map ! 1) = 1/4" by (simp add: demo_map_def)
  have "interpolate demo_map (1/4) = Inr (Some (demo_map ! 1))"
    using interpolate_interior [OF h q, THEN conjunct1, rule_format, of 1] k by simp
  then have a: "interpolate demo_map (1/4) = Inr (Some (1/4, 80))"
    by (simp add: demo_map_def)
  have n: "1/2 \<notin> fst ` set demo_map" by (simp add: demo_map_def)
  have i: "1 + 1 < length demo_map \<and> fst (demo_map ! 1) < 1/2
             \<and> 1/2 < fst (demo_map ! (1 + 1))"
    by (simp add: demo_map_def)
  have b: "interpolate demo_map (1/2) = Inr (Some (1/2, 50))"
    using interpolate_interior [OF h m, THEN conjunct2, rule_format, OF n,
        THEN conjunct2, rule_format, OF i]
    by (simp add: demo_map_def Let_def)
  from h q m a b show ?thesis by (intro conjI)
qed

theorem interpolate_range_witness:
  "increasing demo_map \<and> 2 \<le> length demo_map
   \<and> interpolate demo_map 2 = Inr None
   \<and> interpolate demo_map 0 = Inr (Some (0, 100))
   \<and> interpolate demo_map 1 = Inr (Some (1, 0))"
proof -
  have h: "increasing demo_map" "2 \<le> length demo_map"
    by (simp_all add: demo_map_def increasing_def)
  from h interpolate_range [OF h, of 2] interpolate_range [OF h, of 0]
    interpolate_range [OF h, of 1]
  show ?thesis by (simp add: demo_map_def)
qed

subsection \<open>Compensation\<close>

lemma comprehension_total:
  "(\<And>x. x \<in> set xs \<Longrightarrow> f x = Inr (g x)) \<Longrightarrow> comprehension f xs = Inr (map g xs)"
  by (induction xs) simp_all

lemma comprehension_raises:
  "x \<in> set xs \<Longrightarrow> f x = Inl e \<Longrightarrow> \<exists>e'. comprehension f xs = Inl e'"
  by (induction xs) (auto split: sum.splits)

lemma well_formed_values:
  assumes "well_formed ph"
  shows "heat_up_time ph = Inr (heatUp ph)"
    and "cool_down_time ph = Inr (coolDown ph)"
    and "\<exists>d. actual_vs_predicted ph = Inr d"
    and "print_time_factor ph = Inr (scale_of ph)"
  using assms
  by (auto simp: well_formed_def heat_up_time_def cool_down_time_def actual_vs_predicted_def
      print_time_factor_def heatUp_def coolDown_def scale_of_def getkey_def andthen_def)

lemma average_mean: "xs \<noteq> [] \<Longrightarrow> average xs = Inr (mean xs)"
  by (simp add: average_def mean_def)

lemma history_averages_well_formed:
  assumes ne: "print_history \<noteq> []" and wf: "\<forall>ph \<in> set print_history. well_formed ph"
  shows "history_averages print_history =
           Inr (mean (map heatUp print_history), mean (map coolDown print_history),
                mean (map scale_of print_history))"
proof -
  have h: "comprehension heat_up_time print_history = Inr (map heatUp print_history)"
    using wf by (intro comprehension_total) (simp add: well_formed_values)
  have c: "comprehension cool_down_time print_history = Inr (map coolDown print_history)"
    using wf by (intro comprehension_total) (simp add: well_formed_values)
  have "\<And>ph. ph \<in> set print_history \<Longrightarrow>
          actual_vs_predicted ph = Inr (projr (actual_vs_predicted ph))"
    using wf well_formed_values(3) by fastforce
  then have l: "comprehension actual_vs_predicted print_history
                  = Inr (map (\<lambda>ph. projr (actual_vs_predicted ph)) print_history)"
    by (rule comprehension_total)
  have f: "comprehension print_time_factor print_history = Inr (map scale_of print_history)"
    using wf by (intro comprehension_total) (simp add: well_formed_values)
  show ?thesis
    using ne by (simp add: history_averages_def h c l f andthen_def average_mean)
qed

lemma rewrite_loop_filter:
  assumes "firstFilament a = Some (Num ff)" "lastFilament a = Some (Num lf)" "increasing m"
  shows "rewrite_loop py a t s c m =
           Inr (map (\<lambda>p. (fst p, (snd p - t) * s + c))
                  (filter (\<lambda>p. ff \<le> fst p \<and> fst p < lf) m))"
  using assms(3)
proof (induction m)
  case Nil
  show ?case by simp
next
  case (Cons p ps)
  then have inc: "increasing ps" and gt: "\<forall>q \<in> set ps. fst p < fst q"
    by (auto simp: increasing_def)
  have "filter (\<lambda>p. ff \<le> fst p \<and> fst p < lf) ps = []" if "lf \<le> fst p"
    using gt that by (auto simp: filter_empty_conv)
  then show ?case using Cons.IH [OF inc] assms(1,2)
    by (auto simp: lt_jnum_def ge_jnum_def)
qed

lemma interpolate_knot:
  assumes inc: "increasing l" and k: "k < length l" and x: "fst (l ! k) = x"
  shows "interpolate l x = Inr (Some (l ! k))"
proof -
  from k have ne: "l \<noteq> []" by auto
  have hd0: "hd l = l ! 0" using ne by (simp add: hd_conv_nth)
  have lastn: "last l = l ! (length l - 1)" using ne by (simp add: last_conv_nth)
  have n1: "length l - 1 < length l" using ne by simp
  have n0: "0 < length l" using ne by simp
  have first: "fst (hd l) \<le> x"
  proof (cases "k = 0")
    case True then show ?thesis using x hd0 by simp
  next
    case False
    then have "fst (l ! 0) < fst (l ! k)" using increasing_nth_less [OF inc _ k] by simp
    then show ?thesis using x hd0 by simp
  qed
  have lst: "x \<le> fst (last l)"
  proof (cases "k = length l - 1")
    case True then show ?thesis using x lastn by simp
  next
    case False
    then have "k < length l - 1" using k by simp
    then have "fst (l ! k) < fst (l ! (length l - 1))"
      using increasing_nth_less [OF inc _ n1] by simp
    then show ?thesis using x lastn by simp
  qed
  show ?thesis
  proof (cases "x = fst (hd l)")
    case True
    then have "\<not> fst (l ! 0) < fst (l ! k)" using x hd0 by simp
    then have "k = 0" using increasing_nth_less_iff [OF inc n0 k] by simp
    then show ?thesis using True lst hd0 by (simp add: interpolate_cases [OF ne])
  next
    case nf: False
    show ?thesis
    proof (cases "x = fst (last l)")
      case True
      then have "\<not> fst (l ! k) < fst (l ! (length l - 1))" using x lastn by simp
      then have "\<not> k < length l - 1" using increasing_nth_less_iff [OF inc k n1] by simp
      then have "k = length l - 1" using k by simp
      then show ?thesis using True nf first lastn by (simp add: interpolate_cases [OF ne])
    next
      case nl: False
      have lo: "fst (hd l) < x" and hi: "x < fst (last l)" using first lst nf nl by simp_all
      define r where "r = bisect_right l x"
      from bisect_right_bracket [OF ne lo hi]
      have r: "0 < r" "r < length l" "fst (l ! (r - 1)) < x" "x \<le> fst (l ! r)"
        by (simp_all add: r_def)
      have r1: "r - 1 < length l" using r by simp
      have "fst (l ! (r - 1)) < fst (l ! k)" using r(3) x by simp
      then have a: "r - 1 < k" using increasing_nth_less_iff [OF inc r1 k] by simp
      have "\<not> fst (l ! r) < fst (l ! k)" using r(4) x by simp
      then have b: "\<not> r < k" using increasing_nth_less_iff [OF inc r(2) k] by simp
      from a b have kr: "k = r" by simp
      have d: "fst (l ! r) - fst (l ! (r - 1)) \<noteq> 0" using r(3,4) by simp
      have xr: "fst (l ! r) = x" using x kr by simp
      have ratio: "(x - fst (l ! (r - 1))) / (fst (l ! r) - fst (l ! (r - 1))) = 1"
        using d by (simp add: xr)
      have "interpolate l x = Inr (Some (blend (l ! (r - 1)) (l ! r) 1))"
        using interpolate_inside [OF ne lo hi] ratio by (simp add: r_def)
      then show ?thesis by (simp add: blend_one kr)
    qed
  qed
qed

lemma getitem_Cons_0: "getitem (p # ps) 0 = Inr p"
  by (simp add: getitem_def)

text \<open>
  Claim C1, as amended. For an analysis whose progress map has strictly increasing
  positions and contains \<open>firstFilament\<close> and \<open>lastFilament\<close> (numbers) with
  \<open>firstFilament < lastFilament\<close>, and a non-empty history of well-formed records:
  compensation replaces the map by the points \<open>(position, (value - tailRemaining) * avgScale
  + avgCoolDown)\<close> for the original points with \<open>firstFilament \<le> position < lastFilament\<close>
  (at least one), preceded by \<open>(0, firstKeptValue + avgHeatUp)\<close> and followed by
  \<open>(1, 0)\<close>; \<open>tailRemaining\<close> is the value interpolated at \<open>lastFilament\<close> in the
  original map, and \<open>estimatedPrintTime\<close> becomes the value of the new first point.
\<close>

theorem compensate_analysis_rewrite:
  assumes ne: "print_history \<noteq> []"
    and wf: "\<forall>ph \<in> set print_history. well_formed ph"
    and a: "progress a = Some m" "firstFilament a = Some (Num ff)"
      "lastFilament a = Some (Num lf)"
    and inc: "increasing m"
    and ffm: "ff \<in> fst ` set m" and lfm: "lf \<in> fst ` set m" and lt: "ff < lf"
  shows "\<exists>tailRemaining kept.
           interpolate m lf = Inr (Some (lf, tailRemaining))
         \<and> kept = map (\<lambda>p. (fst p, (snd p - tailRemaining) * mean (map scale_of print_history)
                                     + mean (map coolDown print_history)))
                    (filter (\<lambda>p. ff \<le> fst p \<and> fst p < lf) m)
         \<and> kept \<noteq> []
         \<and> compensate_analysis py (Some print_history) a =
             a\<lparr>progress := Some ((0, snd (hd kept) + mean (map heatUp print_history))
                                   # kept @ [(1, 0)]),
               estimatedPrintTime := Some (snd (hd kept) + mean (map heatUp print_history))\<rparr>"
proof -
  from lfm obtain k where k: "k < length m" "fst (m ! k) = lf"
    by (auto simp: in_set_conv_nth)
  define t where "t = snd (m ! k)"
  have ip: "interpolate m lf = Inr (Some (lf, t))"
    using interpolate_knot [OF inc k(1) k(2)] k(2) by (simp add: t_def prod_eq_iff)
  define kept where
    "kept = map (\<lambda>p. (fst p, (snd p - t) * mean (map scale_of print_history)
                                     + mean (map coolDown print_history)))
                    (filter (\<lambda>p. ff \<le> fst p \<and> fst p < lf) m)"
  have loop: "rewrite_loop py a t (mean (map scale_of print_history))
                (mean (map coolDown print_history)) m = Inr kept"
    unfolding kept_def by (rule rewrite_loop_filter [OF a(2,3) inc])
  from ffm lt have "filter (\<lambda>p. ff \<le> fst p \<and> fst p < lf) m \<noteq> []"
    by (auto simp: filter_empty_conv)
  then have kne: "kept \<noteq> []" by (simp add: kept_def)
  then have g: "getitem kept 0 = Inr (hd kept)" by (rule getitem_0)
  have "compensate_analysis py (Some print_history) a =
             a\<lparr>progress := Some ((0, snd (hd kept) + mean (map heatUp print_history))
                                   # kept @ [(1, 0)]),
               estimatedPrintTime := Some (snd (hd kept) + mean (map heatUp print_history))\<rparr>"
    using ne
    by (simp add: compensate_analysis_def compensate_try_def
        history_averages_well_formed [OF ne wf] new_progress_map_def a ip loop g
        interpolate_jnum_def
        andthen_def getkey_def getitem_Cons_0)
  with ip kne kept_def show ?thesis by blast
qed

text \<open>
  Claim C2. When the history contains a record whose \<open>analysisLastFilamentPrintTime\<close>
  equals its \<open>analysisFirstFilamentPrintTime\<close>, the \<^verbatim>\<open>try\<close> block raises, the
  exception is caught, and \<open>compensate_analysis\<close> returns with the analysis (progress map
  and \<open>estimatedPrintTime\<close> among its keys) exactly as it was.
\<close>

theorem compensate_analysis_degenerate:
  assumes "ph \<in> set print_history"
    and "analysisLastFilamentPrintTime ph = analysisFirstFilamentPrintTime ph"
  shows "(\<exists>e. compensate_try py (Some print_history) a = Inl e)
       \<and> compensate_analysis py (Some print_history) a = a"
proof -
  have "\<exists>e. print_time_factor ph = Inl e"
    using assms(2)
    by (auto simp: print_time_factor_def andthen_def getkey_def split: option.splits)
  then obtain e where "comprehension print_time_factor print_history = Inl e"
    using comprehension_raises [OF assms(1)] by blast
  then have "\<exists>e. history_averages print_history = Inl e"
    by (auto simp: history_averages_def andthen_def split: sum.splits)
  moreover have "print_history \<noteq> []" using assms(1) by auto
  ultimately have "\<exists>e. compensate_try py (Some print_history) a = Inl e"
    by (auto simp: compensate_try_def andthen_def)
  then show ?thesis by (auto simp: compensate_analysis_def)
qed

theorem compensate_analysis_rewrite_witness:
  "[demo_record] \<noteq> [] \<and> well_formed demo_record
   \<and> increasing demo_map \<and> 1/4 \<in> fst ` set demo_map \<and> 3/4 \<in> fst ` set demo_map
   \<and> (1/4 :: real) < 3/4
   \<and> (\<exists>tailRemaining kept.
           interpolate demo_map (3/4) = Inr (Some (3/4, tailRemaining))
         \<and> kept = map (\<lambda>p. (fst p, (snd p - tailRemaining) * mean (map scale_of [demo_record])
                                     + mean (map coolDown [demo_record])))
                    (filter (\<lambda>p. 1/4 \<le> fst p \<and> fst p < 3/4) demo_map)
         \<and> kept \<noteq> []
         \<and> compensate_analysis Python2 (Some [demo_record]) demo_analysis =
             demo_analysis\<lparr>progress := Some ((0, snd (hd kept) + mean (map heatUp [demo_record]))
                                   # kept @ [(1, 0)]),
               estimatedPrintTime := Some (snd (hd kept) + mean (map heatUp [demo_record]))\<rparr>)"
proof -
  have h1: "[demo_record] \<noteq> []" by simp
  have h2: "\<forall>ph \<in> set [demo_record]. well_formed ph"
    by (simp add: well_formed_def demo_record_def)
  have h3: "progress demo_analysis = Some demo_map" "firstFilament demo_analysis = Some (Num (1/4))"
    "lastFilament demo_analysis = Some (Num (3/4))"
    by (simp_all add: demo_analysis_def)
  have h4: "increasing demo_map" by (simp add: demo_map_def increasing_def)
  have h5: "1/4 \<in> fst ` set demo_map" "3/4 \<in> fst ` set demo_map"
    by (simp_all add: demo_map_def)
  have h6: "(1/4 :: real) < 3/4" by simp
  have wf: "well_formed demo_record" using h2 by simp
  from compensate_analysis_rewrite [OF h1 h2 h3 h4 h5 h6, of Python2] h1 wf h4 h5 h6
  show ?thesis by blast
qed

lemma demo_compensated:
  "compensate_analysis Python2 (Some [demo_record]) demo_analysis =
     demo_analysis\<lparr>progress := Some [(0, 80), (1/4, 70), (1, 0)],
                    estimatedPrintTime := Some 80\<rparr>"
  by code_simp

text \<open>
  Claim C1 as stated fails when \<open>firstFilament = lastFilament\<close>: no point is kept,
  \<^verbatim>\<open>new_progress[0]\<close> raises, and the analysis is left as it was (the point at or after
  \<open>lastFilament\<close> is not dropped, nothing is prepended).
\<close>

theorem compensate_analysis_rewrite_counterexample:
  "[demo_record] \<noteq> [] \<and> well_formed demo_record
   \<and> progress flat_analysis = Some demo_map
   \<and> firstFilament flat_analysis = Some (Num (3/4))
   \<and> lastFilament flat_analysis = Some (Num (3/4))
   \<and> 3/4 \<in> fst ` set demo_map
   \<and> compensate_analysis Python2 (Some [demo_record]) flat_analysis = flat_analysis
   \<and> compensate_analysis Python3 (Some [demo_record]) flat_analysis = flat_analysis"
  by code_simp

theorem compensate_analysis_degenerate_witness:
  "degenerate_record \<in> set [demo_record, degenerate_record]
   \<and> analysisLastFilamentPrintTime degenerate_record
       = analysisFirstFilamentPrintTime degenerate_record
   \<and> (\<exists>e. compensate_try Python2 (Some [demo_record, degenerate_record]) demo_analysis
           = Inl e)
   \<and> compensate_analysis Python2 (Some [demo_record, degenerate_record]) demo_analysis
       = demo_analysis"
proof -
  have h1: "degenerate_record \<in> set [demo_record, degenerate_record]" by simp
  have h2: "analysisLastFilamentPrintTime degenerate_record
       = analysisFirstFilamentPrintTime degenerate_record"
    by (simp add: degenerate_record_def demo_record_def)
  from compensate_analysis_degenerate [OF h1 h2, of Python2 demo_analysis] h1 h2
  show ?thesis by blast
qed

subsection \<open>Live estimation\<close>

lemma report_history: "current_history (fst (report self t)) = current_history self"
  by (simp add: report_def split: option.splits)

lemma capture_first_last:
  "capture_first py a prog t h = Inr h1 \<Longrightarrow>
   lastFilamentPrintTime h1 = lastFilamentPrintTime h"
  by (auto simp: capture_first_def split: option.splits sum.splits if_splits)

lemma capture_first_Inr_iff:
  "(\<exists>h1. capture_first py a prog t h = Inr h1) = first_filament_comparable py a"
  by (cases py)
    (auto simp: capture_first_def first_filament_comparable_def gt_jnum_def none_cmp_def
      split: option.splits jnum.splits)

lemma capture_last_value:
  "capture_last py a prog t h = Inr h2 \<Longrightarrow>
   lastFilamentPrintTime h2 =
     (if lastFilamentPrintTime h = None \<or> not_past_last_filament a prog
      then Some t else lastFilamentPrintTime h)"
  by (cases py)
    (auto simp: capture_last_def not_past_last_filament_def le_jnum_def none_cmp_def
      split: option.splits jnum.splits if_splits)

lemma capture_last_Inl:
  "capture_last py a prog t h = Inl e \<Longrightarrow>
   lastFilamentPrintTime h \<noteq> None \<and> \<not> not_past_last_filament a prog"
  by (cases py)
    (auto simp: capture_last_def not_past_last_filament_def le_jnum_def none_cmp_def
      split: option.splits jnum.splits if_splits)

lemma new_estimate_last:
  "lastFilamentPrintTime (current_history (fst (new_estimate py self a m n prog t))) =
     (if first_filament_comparable py a
         \<and> (lastFilamentPrintTime (current_history self) = None
              \<or> not_past_last_filament a prog)
      then Some t else lastFilamentPrintTime (current_history self))"
proof (cases "capture_first py a prog t (current_history self)")
  case (Inl e)
  then have "\<not> first_filament_comparable py a"
    using capture_first_Inr_iff [of py a prog t "current_history self"] by auto
  with Inl show ?thesis by (simp add: new_estimate_def)
next
  case (Inr h1)
  then have ff: "first_filament_comparable py a"
    using capture_first_Inr_iff [of py a prog t "current_history self"] by auto
  have l1: "lastFilamentPrintTime h1 = lastFilamentPrintTime (current_history self)"
    using capture_first_last [OF Inr] .
  show ?thesis
  proof (cases "capture_last py a prog t h1")
    case (Inl e)
    from capture_last_Inl [OF this] l1 Inr Inl ff show ?thesis
      by (simp add: new_estimate_def)
  next
    case r2: (Inr h2)
    have "lastFilamentPrintTime (current_history (fst (new_estimate py self a m n prog t)))
            = lastFilamentPrintTime h2"
      using Inr r2
      by (cases "interpolate m prog")
        (auto simp: new_estimate_def report_history Let_def split: option.splits)
    with capture_last_value [OF r2] l1 ff show ?thesis by simp
  qed
qed

lemma genius_estimate_last:
  "lastFilamentPrintTime (current_history (fst (genius_estimate py self md progress0 t))) =
     (if qualifying py self (md, progress0, t) then Some t
      else lastFilamentPrintTime (current_history self))"
proof (cases "called_genius_yet self")
  case True
  then show ?thesis
    by (auto simp add: genius_estimate_def qualifying_def effective_progress_def
        new_estimate_last report_history Let_def split: option.splits sum.splits)
next
  case False
  then show ?thesis
    by (auto simp add: genius_estimate_def qualifying_def effective_progress_def
        new_estimate_last report_history Let_def split: option.splits sum.splits)
qed

lemma run_ticks_append: "run_ticks py self (xs @ ys) = run_ticks py (run_ticks py self xs) ys"
  by (induction xs arbitrary: self) auto

lemma run_ticks_unchanged:
  "(\<forall>i < length post. \<not> qualifying py (run_ticks py self (take i post)) (post ! i)) \<Longrightarrow>
   lastFilamentPrintTime (current_history (run_ticks py self post))
     = lastFilamentPrintTime (current_history self)"
proof (induction post arbitrary: self)
  case Nil
  show ?case by simp
next
  case (Cons tk post)
  obtain md p t where tk: "tk = (md, p, t)" by (cases tk)
  define self1 where "self1 = fst (genius_estimate py self md p t)"
  from Cons.prems have "\<not> qualifying py (run_ticks py self (take 0 (tk # post))) ((tk # post) ! 0)"
    by blast
  then have nq: "\<not> qualifying py self (md, p, t)" by (simp add: tk)
  have "\<not> qualifying py (run_ticks py self1 (take i post)) (post ! i)" if "i < length post" for i
  proof -
    from that have "Suc i < length (tk # post)" by simp
    with Cons.prems
    have "\<not> qualifying py (run_ticks py self (take (Suc i) (tk # post))) ((tk # post) ! Suc i)"
      by blast
    then show ?thesis by (simp add: tk self1_def)
  qed
  then have "lastFilamentPrintTime (current_history (run_ticks py self1 post))
               = lastFilamentPrintTime (current_history self1)"
    using Cons.IH [of self1] by blast
  also have "\<dots> = lastFilamentPrintTime (current_history self)"
    using nq by (simp add: self1_def genius_estimate_last)
  finally show ?case by (simp add: tk self1_def)
qed

text \<open>
  Claim C4, as amended. A tick sets \<open>lastFilamentPrintTime\<close> to its elapsed time exactly
  when it is qualifying: the metadata has an analysis with a progress map, the cursor
  moves to a new index on that tick, the analysis has a \<open>firstFilament\<close> that the
  progress can be compared with (a number, or \<^verbatim>\<open>null\<close> under Python 2), and either no
  value has been recorded yet or the progress (taken as 0 on the first tick) is at most a
  numeric \<open>lastFilament\<close>; every other tick leaves the stored value unchanged. So after
  a tick sequence the stored value is the elapsed time of the last qualifying tick.
\<close>

theorem last_filament_print_time_capture:
  "lastFilamentPrintTime (current_history (fst (genius_estimate py self md progress0 printTime))) =
     (if qualifying py self (md, progress0, printTime) then Some printTime
      else lastFilamentPrintTime (current_history self))
   \<and> (qualifying py (run_ticks py self pre) (md, progress0, printTime)
        \<and> (\<forall>i < length post.
              \<not> qualifying py (run_ticks py self (pre @ (md, progress0, printTime) # take i post))
                  (post ! i))
        \<longrightarrow> lastFilamentPrintTime
              (current_history (run_ticks py self (pre @ (md, progress0, printTime) # post)))
            = Some printTime)"
proof (intro conjI impI)
  show "lastFilamentPrintTime (current_history (fst (genius_estimate py self md progress0 printTime))) =
     (if qualifying py self (md, progress0, printTime) then Some printTime
      else lastFilamentPrintTime (current_history self))"
    by (rule genius_estimate_last)
next
  assume h: "qualifying py (run_ticks py self pre) (md, progress0, printTime)
        \<and> (\<forall>i < length post.
              \<not> qualifying py (run_ticks py self (pre @ (md, progress0, printTime) # take i post))
                  (post ! i))"
  define s1 where "s1 = run_ticks py self pre"
  define s2 where "s2 = fst (genius_estimate py s1 md progress0 printTime)"
  have step: "run_ticks py self (pre @ (md, progress0, printTime) # ts) = run_ticks py s2 ts" for ts
    by (simp add: run_ticks_append s1_def s2_def)
  from h have "\<forall>i < length post. \<not> qualifying py (run_ticks py s2 (take i post)) (post ! i)"
    by (simp add: step)
  then have "lastFilamentPrintTime (current_history (run_ticks py s2 post))
               = lastFilamentPrintTime (current_history s2)"
    by (rule run_ticks_unchanged)
  also have "\<dots> = Some printTime"
    using h by (simp add: s2_def s1_def genius_estimate_last)
  finally show "lastFilamentPrintTime
              (current_history (run_ticks py self (pre @ (md, progress0, printTime) # post)))
            = Some printTime"
    by (simp add: step)
qed

text \<open>
  Claim C3. Whenever \<open>genius_estimate\<close> raises, \<open>estimate\<close> returns the result of the
  default estimator; and in every case \<open>estimate\<close> returns either that default result or
  the result that \<open>genius_estimate\<close> returned. The witness raises \<^verbatim>\<open>KeyError\<close> on a
  missing \<^verbatim>\<open>firstFilament\<close> and \<^verbatim>\<open>TypeError\<close> on a \<^verbatim>\<open>null\<close> one under Python 3.
\<close>

theorem estimate_catches_exceptions:
  "(\<forall>e. snd (genius_estimate py self md progress0 printTime) = Inl e
         \<longrightarrow> snd (estimate py default_result self md progress0 printTime) = default_result)
   \<and> (snd (estimate py default_result self md progress0 printTime) = default_result
        \<or> (\<exists>g. snd (genius_estimate py self md progress0 printTime) = Inr (Some g)
                \<and> snd (estimate py default_result self md progress0 printTime) = Some g))"
  by (cases "genius_estimate py self md progress0 printTime")
    (auto simp: estimate_def split: sum.splits option.splits)

lemma demo_raises:
  "snd (genius_estimate py (init_estimator empty_history) (Some (Some no_first_filament)) 0 0)
     = Inl KeyError"
  by (simp add: genius_estimate_def init_estimator_def empty_history_def no_first_filament_def
      demo_analysis_def demo_map_def advance.simps getitem_def new_estimate_def
      capture_first_def Let_def
      gt_jnum_def le_jnum_def none_cmp_def)

lemma demo_raises_null:
  "snd (genius_estimate Python3 (init_estimator empty_history)
          (Some (Some null_first_filament)) 0 0) = Inl TypeError"
  by (simp add: genius_estimate_def init_estimator_def empty_history_def
      null_first_filament_def demo_analysis_def demo_map_def advance.simps getitem_def
      new_estimate_def capture_first_def Let_def gt_jnum_def none_cmp_def)

theorem estimate_catches_exceptions_witness:
  "snd (genius_estimate Python2 (init_estimator empty_history)
          (Some (Some no_first_filament)) 0 0) = Inl KeyError
   \<and> snd (estimate Python2 (Some (42, ''average'')) (init_estimator empty_history)
            (Some (Some no_first_filament)) 0 0) = Some (42, ''average'')
   \<and> snd (genius_estimate Python3 (init_estimator empty_history)
            (Some (Some null_first_filament)) 0 0) = Inl TypeError
   \<and> snd (estimate Python3 (Some (42, ''average'')) (init_estimator empty_history)
            (Some (Some null_first_filament)) 0 0) = Some (42, ''average'')"
  using estimate_catches_exceptions [of Python2 "init_estimator empty_history"
      "Some (Some no_first_filament)" 0 0 "Some (42, ''average'')"]
    estimate_catches_exceptions [of Python3 "init_estimator empty_history"
      "Some (Some null_first_filament)" 0 0 "Some (42, ''average'')"]
    demo_raises [of Python2] demo_raises_null
  by simp

lemma demo_after_first:
  "run_ticks py (init_estimator empty_history) demo_ticks =
     \<lparr>current_history = empty_history\<lparr>lastFilamentPrintTime := Some 0\<rparr>,
      current_progress_index = 0, current_total_printTime = Some 100,
      called_genius_yet = True\<rparr>"
  by (simp add: demo_ticks_def genius_estimate_def init_estimator_def empty_history_def
      demo_analysis_def demo_map_def advance.simps getitem_def new_estimate_def
      capture_first_def capture_last_def interpolate_def report_def Let_def
      gt_jnum_def le_jnum_def none_cmp_def)

lemma demo_second:
  "genius_estimate py
     \<lparr>current_history = empty_history\<lparr>lastFilamentPrintTime := Some 0\<rparr>,
      current_progress_index = 0, current_total_printTime = Some 100,
      called_genius_yet = True\<rparr> (Some (Some demo_analysis)) (1/5) 150 =
   (\<lparr>current_history = empty_history\<lparr>lastFilamentPrintTime := Some 0\<rparr>,
      current_progress_index = 0, current_total_printTime = Some 100,
      called_genius_yet = True\<rparr>, Inr (Some (- 50, ''genius'')))"
  by (simp add: genius_estimate_def empty_history_def
      demo_analysis_def demo_map_def advance.simps getitem_def report_def Let_def
      gt_jnum_def le_jnum_def none_cmp_def)

text \<open>
  Claim C10. The remaining time is not clamped at zero: under either interpreter there is a
  tick sequence after which an anchor is set, and a later tick with a larger elapsed time
  on which the cursor does not move, for which \<open>estimate\<close> reports the negative value
  \<open>anchor - printTime\<close>.
\<close>

theorem genius_remaining_not_clamped:
  "\<exists>ticks md progress0 printTime anchor.
     current_total_printTime (run_ticks py (init_estimator empty_history) ticks) = Some anchor
   \<and> anchor < printTime
   \<and> current_progress_index
        (fst (genius_estimate py (run_ticks py (init_estimator empty_history) ticks)
                md progress0 printTime))
       = current_progress_index (run_ticks py (init_estimator empty_history) ticks)
   \<and> snd (estimate py default_result (run_ticks py (init_estimator empty_history) ticks)
            md progress0 printTime) = Some (anchor - printTime, ''genius'')
   \<and> anchor - printTime < 0"
  apply (rule exI [of _ demo_ticks])
  apply (rule exI [of _ "Some (Some demo_analysis)"])
  apply (rule exI [of _ "1/5"])
  apply (rule exI [of _ 150])
  apply (rule exI [of _ 100])
  apply (simp add: demo_after_first demo_second estimate_def)
  done

text \<open>
  Claim C4 as stated fails on a tick that does not move the cursor: after a first tick at
  elapsed time 0, a tick with progress \<open>1/5 \<le> lastFilament\<close> at elapsed time 150 leaves
  \<open>lastFilamentPrintTime\<close> at 0, under either interpreter.
\<close>

theorem last_filament_tick_counterexample:
  "(1/5 :: real) \<le> 3/4
   \<and> lastFilament demo_analysis = Some (Num (3/4))
   \<and> lastFilamentPrintTime (current_history
        (run_ticks Python2 (init_estimator empty_history)
           (demo_ticks @ [(Some (Some demo_analysis), 1/5, 150)]))) = Some 0
   \<and> lastFilamentPrintTime (current_history
        (run_ticks Python3 (init_estimator empty_history)
           (demo_ticks @ [(Some (Some demo_analysis), 1/5, 150)]))) = Some 0"
  by (simp add: run_ticks_append demo_after_first demo_second)
    (simp add: demo_analysis_def empty_history_def)

theorem last_filament_print_time_capture_witness:
  "qualifying Python3 (run_ticks Python3 (init_estimator empty_history) []) (Some (Some demo_analysis), 0, 0)
   \<and> \<not> qualifying Python3
         (run_ticks Python3 (init_estimator empty_history) [(Some (Some demo_analysis), 0, 0)])
         (Some (Some demo_analysis), 1/5, 150)
   \<and> lastFilamentPrintTime
        (current_history (run_ticks Python3 (init_estimator empty_history)
           ([] @ (Some (Some demo_analysis), 0, 0) # [(Some (Some demo_analysis), 1/5, 150)])))
       = Some 0"
proof -
  have q1: "qualifying Python3 (run_ticks Python3 (init_estimator empty_history) [])
              (Some (Some demo_analysis), 0, 0)"
    by (simp add: qualifying_def effective_progress_def init_estimator_def empty_history_def
        demo_analysis_def demo_map_def advance.simps getitem_def
        first_filament_comparable_def not_past_last_filament_def)
  have s1: "run_ticks Python3 (init_estimator empty_history) [(Some (Some demo_analysis), 0, 0)]
      = \<lparr>current_history = empty_history\<lparr>lastFilamentPrintTime := Some 0\<rparr>,
      current_progress_index = 0, current_total_printTime = Some 100,
      called_genius_yet = True\<rparr>"
    using demo_after_first by (simp only: demo_ticks_def)
  have nq: "\<not> qualifying Python3 \<lparr>current_history = empty_history\<lparr>lastFilamentPrintTime := Some 0\<rparr>,
      current_progress_index = 0, current_total_printTime = Some 100,
      called_genius_yet = True\<rparr> (Some (Some demo_analysis), 1/5, 150)"
    by (simp add: qualifying_def effective_progress_def
        demo_analysis_def demo_map_def advance.simps getitem_def
        first_filament_comparable_def not_past_last_filament_def)
  have q2: "\<forall>i < length [(Some (Some demo_analysis), 1/5, 150 :: real)].
         \<not> qualifying Python3 (run_ticks Python3 (init_estimator empty_history)
                          ([] @ (Some (Some demo_analysis), 0, 0)
                             # take i [(Some (Some demo_analysis), 1/5, 150)]))
             ([(Some (Some demo_analysis), 1/5, 150)] ! i)"
  proof (intro allI impI)
    fix i :: nat
    assume "i < length [(Some (Some demo_analysis), 1/5, 150 :: real)]"
    then have i: "i = 0" by simp
    show "\<not> qualifying Python3 (run_ticks Python3 (init_estimator empty_history)
                          ([] @ (Some (Some demo_analysis), 0, 0)
                             # take i [(Some (Some demo_analysis), 1/5, 150)]))
             ([(Some (Some demo_analysis), 1/5, 150)] ! i)"
      unfolding i using nq s1 by simp
  qed
  have "lastFilamentPrintTime
        (current_history (run_ticks Python3 (init_estimator empty_history)
           ([] @ (Some (Some demo_analysis), 0, 0) # [(Some (Some demo_analysis), 1/5, 150)])))
       = Some 0"
    using last_filament_print_time_capture [of Python3 "init_estimator empty_history"
      "Some (Some demo_analysis)" 0 0 "[]" "[(Some (Some demo_analysis), 1/5, 150)]",
      THEN conjunct2, rule_format, OF conjI, OF q1 q2] .
  moreover have "\<not> qualifying Python3
         (run_ticks Python3 (init_estimator empty_history) [(Some (Some demo_analysis), 0, 0)])
         (Some (Some demo_analysis), 1/5, 150)"
    using nq s1 by simp
  ultimately show ?thesis using q1 by (intro conjI)
qed

subsection \<open>History of finished prints\<close>

lemma comprehension_getkey:
  "comprehension (\<lambda>x. getkey (f x)) xs = Inr ks \<Longrightarrow> map f xs = map Some ks"
proof (induction xs arbitrary: ks)
  case Nil
  then show ?case by simp
next
  case (Cons x xs)
  then show ?case
    by (auto simp: getkey_def split: option.splits sum.splits)
qed

lemma sorted_uminus_desc:
  "sorted (map (\<lambda>x. - f x) xs) = sorted_wrt (\<ge>) (map (f :: 'a \<Rightarrow> real) xs)"
  by (induction xs) auto

lemma sort_history_props:
  assumes "sort_history hs = Inr r"
  shows "\<exists>stamps. mset r = mset hs \<and> map timestamp r = map Some stamps
                 \<and> sorted_wrt (\<ge>) stamps"
proof -
  from assms obtain ks where ks: "comprehension (\<lambda>x. getkey (timestamp x)) hs = Inr ks"
    and r: "r = map snd (sort_key (\<lambda>kx. - fst kx) (zip ks hs))"
    by (auto simp: sort_history_def andthen_def split: sum.splits)
  from comprehension_getkey [OF ks] have ts: "map timestamp hs = map Some ks" .
  then have len: "length ks = length hs" by (metis length_map)
  define S where "S = sort_key (\<lambda>kx. - fst kx) (zip ks hs)"
  have ms: "mset S = mset (zip ks hs)" by (simp add: S_def)
  have "mset r = image_mset snd (mset (zip ks hs))"
    unfolding r S_def [symmetric] by (simp add: ms)
  also have "\<dots> = mset (map snd (zip ks hs))" by simp
  also have "\<dots> = mset hs" using len by simp
  finally have m: "mset r = mset hs" .
  have pair: "timestamp h = Some k" if "(k, h) \<in> set (zip ks hs)" for k h
  proof -
    from that obtain i where i: "i < length hs" "ks ! i = k" "hs ! i = h"
      using len by (auto simp: set_zip)
    have "map timestamp hs ! i = map Some ks ! i" using ts by simp
    with i len show ?thesis by simp
  qed
  have "set S = set (zip ks hs)" by (simp add: S_def)
  then have "\<forall>kh \<in> set S. timestamp (snd kh) = Some (fst kh)" using pair by auto
  then have t: "map timestamp r = map Some (map fst S)"
    unfolding r S_def [symmetric] by (induction S) auto
  have "sorted (map (\<lambda>kx. - fst kx) S)" unfolding S_def by (rule sorted_sort_key)
  then have d: "sorted_wrt (\<ge>) (map fst S)" by (simp only: sorted_uminus_desc)
  from m t d show ?thesis by blast
qed

text \<open>
  Claim C9. When \<open>on_event\<close> appends a record, the history it persists is the first five
  entries of the old history plus the new record (stamped with the current time), sorted by
  descending timestamp: it has at most five records, most recent first, and the evicted
  records are those after the first five of the sorted list.
\<close>

theorem history_capped_sorted:
  assumes "on_event event payload now settings_history metadata cur = Inr (persisted, True)"
  shows "\<exists>h new sorted_all stamps.
           cur = Some h
         \<and> timestamp new = Some now \<and> payload_time new = payload
         \<and> firstFilamentPrintTime new = firstFilamentPrintTime h
         \<and> lastFilamentPrintTime new = lastFilamentPrintTime h
         \<and> mset sorted_all
             = mset ((case settings_history of None \<Rightarrow> [] | Some hs \<Rightarrow> hs) @ [new])
         \<and> map timestamp sorted_all = map Some stamps
         \<and> sorted_wrt (\<ge>) stamps
         \<and> persisted = Some (take 5 sorted_all)
         \<and> length (take 5 sorted_all) \<le> 5
         \<and> take 5 sorted_all @ drop 5 sorted_all = sorted_all"
proof -
  define old where "old = (case settings_history of None \<Rightarrow> [] | Some hs \<Rightarrow> hs)"
  have "\<exists>h apt aft alt r.
      cur = Some h
    \<and> sort_history (old
             @ [h\<lparr>payload_time := payload, timestamp := Some now,
                  analysisPrintTime := Some apt,
                  analysisFirstFilamentPrintTime := Some aft,
                  analysisLastFilamentPrintTime := Some alt\<rparr>]) = Inr r
    \<and> persisted = Some (take MAX_HISTORY_ITEMS r)"
    using assms unfolding old_def [symmetric]
    by (simp add: on_event_def andthen_def getkey_def Let_def old_def [symmetric]
        split: if_splits option.splits sum.splits) blast
  then obtain h apt aft alt r where
    cur: "cur = Some h"
    and s: "sort_history (old
             @ [h\<lparr>payload_time := payload, timestamp := Some now,
                  analysisPrintTime := Some apt,
                  analysisFirstFilamentPrintTime := Some aft,
                  analysisLastFilamentPrintTime := Some alt\<rparr>]) = Inr r"
    and p: "persisted = Some (take MAX_HISTORY_ITEMS r)"
    by blast
  define new where "new = h\<lparr>payload_time := payload, timestamp := Some now,
                  analysisPrintTime := Some apt,
                  analysisFirstFilamentPrintTime := Some aft,
                  analysisLastFilamentPrintTime := Some alt\<rparr>"
  from sort_history_props [OF s] obtain stamps where
    st: "mset r = mset (old @ [new])"
        "map timestamp r = map Some stamps" "sorted_wrt (\<ge>) stamps"
    unfolding new_def by blast
  have n: "timestamp new = Some now" "payload_time new = payload"
    "firstFilamentPrintTime new = firstFilamentPrintTime h"
    "lastFilamentPrintTime new = lastFilamentPrintTime h"
    by (simp_all add: new_def)
  from cur n st p show ?thesis
    by (intro exI [of _ h] exI [of _ new] exI [of _ r] exI [of _ stamps])
      (simp add: MAX_HISTORY_ITEMS_def old_def)
qed

lemma demo_on_event:
  "on_event ''PrintDone'' (Some 80) 7 (Some demo_history) (Some (Some demo_analysis))
     (Some demo_current) = Inr (Some demo_persisted, True)"
  by code_simp

theorem history_capped_sorted_witness:
  "on_event ''PrintDone'' (Some 80) 7 (Some demo_history) (Some (Some demo_analysis))
     (Some demo_current) = Inr (Some demo_persisted, True)
   \<and> (\<exists>h new sorted_all stamps.
           Some demo_current = Some h
         \<and> timestamp new = Some 7 \<and> payload_time new = Some 80
         \<and> firstFilamentPrintTime new = firstFilamentPrintTime h
         \<and> lastFilamentPrintTime new = lastFilamentPrintTime h
         \<and> mset sorted_all
             = mset ((case Some demo_history of None \<Rightarrow> [] | Some hs \<Rightarrow> hs) @ [new])
         \<and> map timestamp sorted_all = map Some stamps
         \<and> sorted_wrt (\<ge>) stamps
         \<and> Some demo_persisted = Some (take 5 sorted_all)
         \<and> length (take 5 sorted_all) \<le> 5
         \<and> take 5 sorted_all @ drop 5 sorted_all = sorted_all)"
  using conjI [OF demo_on_event history_capped_sorted [OF demo_on_event]] .

subsection \<open>Progress-map builder\<close>





















text \<open>
  Claim C6 on two traces, for every rounding of the sums. The first sample of the first
  trace has filament \<open>1 > 0\<close> at position 0, but \<^verbatim>\<open>not first_filament\<close> is true again
  for the stored \<open>0.0\<close>, and the next sample overwrites it: \<open>firstFilament\<close> is
  \<open>1/2\<close>, not 0. In the second trace the filament stays at 0, its maximum is reached at
  position \<open>1/10\<close>, but \<^verbatim>\<open>not max_filament\<close> is true for \<open>0.0\<close> and
  \<open>lastFilament\<close> moves on to \<open>1/5\<close>.
\<close>

theorem filament_positions_at_zero:
  "main rnd zero_start_trace =
     Inr \<lparr>out_firstFilament = Some (1/2), out_lastFilament = Some (1/2),
          out_progress = [(0, 2), (0, 1), (1/2, 0), (1, 0)],
          out_estimatedPrintTime = 2\<rparr>
   \<and> main rnd no_filament_trace =
     Inr \<lparr>out_firstFilament = None, out_lastFilament = Some (1/5),
          out_progress = [(0, 2), (1/10, 1), (1/5, 0), (1, 0)],
          out_estimatedPrintTime = 2\<rparr>"
  by (simp add: main_def zero_start_trace_def no_filament_trace_def scan_trace_def
      scan_init_def getitem_def spaced_def at_pos_def truthy_def Let_def)

end
